theory Spec2Isabelle
  imports Complex_Main "HOL-Library.Word"
begin

section \<open>common.py\<close>

definition CHUNK_SIZE :: int where
  "CHUNK_SIZE = 100 * 1024 * 1024"

text \<open>There is an upper limit for chunk size on the server.\<close>

definition UPLOAD_CHUNK_SIZE :: int where
  "UPLOAD_CHUNK_SIZE = 10 * 1024 * 1024"

text \<open>
  Exceptions as values. \<open>ClientError\<close> is the class of common.py, carrying its message;
  every other exception class a worker or the local store may raise (OSError, TypeError, ...)
  is \<open>OtherException\<close>, which no \<open>except ClientError\<close> handler catches.
\<close>

datatype exn = ClientError string | OtherException string

fun str_exn :: "exn \<Rightarrow> string" where
  "str_exn (ClientError m) = m"
| "str_exn (OtherException m) = m"

section \<open>Values of the push protocol\<close>

type_synonym byte = "8 word"

text \<open>Decimal rendering of an integer, as \<open>str\<close> and \<open>format\<close> do.\<close>

definition digit_char :: "nat \<Rightarrow> char" where
  "digit_char d = ''0123456789'' ! d"

fun str_nat :: "nat \<Rightarrow> string" where
  "str_nat n = (if n < 10 then [digit_char n] else str_nat (n div 10) @ [digit_char (n mod 10)])"

declare str_nat.simps [simp del]

definition str_int :: "int \<Rightarrow> string" where
  "str_int i = (if i < 0 then CHR ''-'' # str_nat (nat (- i)) else str_nat (nat i))"

text \<open>A file descriptor of the change set (a dict in the source), with the keys the push reads.\<close>

record diff_info =
  diff_path :: string
  diff_size :: int

record file_entry =
  path :: string
  size_f :: int
  diff :: "diff_info option"
  upload_file :: "string option"
  chunks :: "string list"
  origin_checksum :: "string option"

text \<open>
  Modelled from the spec: the Change Set returned by \<open>MerginProject.get_push_changes\<close>
  (merginproject.py is not among the sources): a mapping with the four ordered collections
  added, updated, removed and renamed.
\<close>

record change_set =
  added :: "file_entry list"
  updated :: "file_entry list"
  removed :: "file_entry list"
  renamed :: "file_entry list"

text \<open>\<open>changes.values()\<close>: the collections of the mapping.\<close>

definition changes_values :: "change_set \<Rightarrow> file_entry list list" where
  "changes_values c = [added c, updated c, removed c, renamed c]"

text \<open>The JSON answers of the service: project information, and the chunk acknowledgement.\<close>

record project_info_resp =
  transaction :: string
  version :: "string option"
  files :: "file_entry list"
  writersnames :: "string list"

datatype request =
    GetProjectInfo string
  | GetStorage change_set
  | PostPush string "string option" change_set
  | PostChunk "string option" string "byte list"
  | PostFinish "string option"
  | PostCancel "string option"

datatype log_level = DEBUG | INFO | ERROR

record project_metadata =
  md_name :: string
  md_version :: "string option"
  md_files :: "file_entry list"

text \<open>
  What the push acts on beyond the job: the requests sent to the remote service so far, the
  lines written to the project log, the metadata of the local project, and the temporary
  directories that exist.
\<close>

record world =
  requests :: "request list"
  log :: "(log_level \<times> string) list"
  metadata :: project_metadata
  live_tmp_dirs :: "string list"

text \<open>
  The collaborators of client\_push.py that are not part of it: the local project
  (\<open>MerginProject\<close>), the client (\<open>MerginClient\<close>) and the remote service behind it, the file
  system and the hash function. A remote call sees the requests sent before it, so the
  service may answer by its history; it fails with a \<open>ClientError\<close> message (\<open>Inl\<close>).
  \<open>megabytes\<close> is \<open>int(freespace/(1024*1024))\<close> of line 135, a division of floating point
  numbers, taken as it is given.
\<close>

record env =
  has_unfinished_pull :: bool
  user_agent_info :: string
  username :: string
  get_push_changes :: change_set
  pformat :: "change_set \<Rightarrow> string"
  is_versioned_file :: "string \<Rightarrow> bool"
  copy_versioned_file_for_upload :: "file_entry \<Rightarrow> string \<Rightarrow> file_entry"
  fpath :: "string \<Rightarrow> string"
  fpath_meta :: "string \<Rightarrow> string"
  new_tmp_dir :: string
  read_file :: "string \<Rightarrow> byte list option"
  sha1_hexdigest :: "byte list \<Rightarrow> string"
  project_info :: "request list \<Rightarrow> string \<Rightarrow> string + project_info_resp"
  enough_storage_available :: "request list \<Rightarrow> change_set \<Rightarrow> string + (bool \<times> int)"
  post_push :: "request list \<Rightarrow> string \<Rightarrow> string option \<Rightarrow> change_set \<Rightarrow> string + project_info_resp"
  post_chunk :: "request list \<Rightarrow> string option \<Rightarrow> string \<Rightarrow> byte list \<Rightarrow> string + (int \<times> string)"
  post_finish :: "request list \<Rightarrow> string option \<Rightarrow> string + project_info_resp"
  post_cancel :: "request list \<Rightarrow> string option \<Rightarrow> string + string"
  apply_push_changes :: "change_set \<Rightarrow> exn option"
  megabytes :: "int \<Rightarrow> int"

definition log_line :: "log_level \<Rightarrow> string \<Rightarrow> world \<Rightarrow> world" where
  "log_line lvl msg w = w\<lparr>log := log w @ [(lvl, msg)]\<rparr>"

definition sent :: "request \<Rightarrow> world \<Rightarrow> world" where
  "sent r w = w\<lparr>requests := requests w @ [r]\<rparr>"

section \<open>client\_push.py: the job and its queue items\<close>

text \<open>A single chunk of data that needs to be uploaded.\<close>

record upload_queue_item =
  file_path :: string
  item_size :: int
  chunk_id :: string
  chunk_index :: nat
  item_transaction_id :: "string option"

definition UploadQueueItem ::
  "string \<Rightarrow> int \<Rightarrow> string option \<Rightarrow> string \<Rightarrow> nat \<Rightarrow> upload_queue_item" where
  "UploadQueueItem fp sz tid cid idx =
     \<lparr>file_path = fp, item_size = sz, chunk_id = cid, chunk_index = idx,
      item_transaction_id = tid\<rparr>"

text \<open>
  The state of a future of the thread pool: queued, executing, or finished with the exception
  its task raised (if any). A submitted task is the future together with the item that
  \<open>executor.submit(_do_upload, item, job)\<close> was called with.
\<close>

datatype future = Pending | Running | Done "exn option"

text \<open>
  The result of a call that may wait: it returns, raises, or blocks (it waits for something
  that does not come).
\<close>

datatype 'a outcome = Returns 'a | Raises exn | Blocks

datatype server_response = NoResponse | RespInfo project_info_resp | RespMsg string

text \<open>
  Keeps all the important data about a pending upload job. \<open>mp\<close> and \<open>mc\<close> are the
  collaborators of \<^typ>\<open>env\<close>; \<open>tmp_dir\<close> is the name of the job's temporary directory;
  \<open>executor\<close> is \<open>None\<close> or the pool's number of workers.
\<close>

record upload_job =
  project_path :: string
  changes :: change_set
  transaction_id :: "string option"
  total_size :: int
  transferred_size :: int
  upload_queue_items :: "upload_queue_item list"
  tmp_dir :: string
  is_cancelled :: bool
  executor :: "nat option"
  futures :: "(upload_queue_item \<times> future) list"
  server_resp :: server_response

definition UploadJob :: "string \<Rightarrow> change_set \<Rightarrow> string option \<Rightarrow> string \<Rightarrow> upload_job" where
  "UploadJob pp ch tid td =
     \<lparr>project_path = pp, changes = ch, transaction_id = tid, total_size = 0,
      transferred_size = 0, upload_queue_items = [], tmp_dir = td, is_cancelled = False,
      executor = None, futures = [], server_resp = NoResponse\<rparr>"

section \<open>Preparing the file chunks for upload\<close>

text \<open>
  The location and size a file is uploaded from: the diff of a versioned file, the temporary
  full copy of a versioned file, or the file itself.
\<close>

definition upload_source :: "env \<Rightarrow> file_entry \<Rightarrow> string \<times> int" where
  "upload_source e file =
     (case diff file of
        Some d \<Rightarrow> (fpath_meta e (diff_path d), diff_size d)
      | None \<Rightarrow>
         (case upload_file file of
            Some u \<Rightarrow> (u, size_f file)
          | None \<Rightarrow> (fpath e (path file), size_f file)))"

definition file_size :: "env \<Rightarrow> file_entry \<Rightarrow> int" where
  "file_size e file = snd (upload_source e file)"

text \<open>The inner loop: one item for each chunk identifier of the file, by \<open>enumerate\<close>.\<close>

definition file_chunks :: "env \<Rightarrow> string option \<Rightarrow> file_entry \<Rightarrow> upload_queue_item list" where
  "file_chunks e tid file =
     map (\<lambda>(idx, cid).
            UploadQueueItem (fst (upload_source e file))
              (min UPLOAD_CHUNK_SIZE (file_size e file - int idx * UPLOAD_CHUNK_SIZE))
              tid cid idx)
         (enumerate 0 (chunks file))"

text \<open>The outer loop over \<open>upload_files\<close>, with its two accumulators.\<close>

fun prepare_chunks ::
  "env \<Rightarrow> string option \<Rightarrow> file_entry list \<Rightarrow> upload_queue_item list \<times> int
     \<Rightarrow> upload_queue_item list \<times> int" where
  "prepare_chunks e tid [] acc = acc"
| "prepare_chunks e tid (file # rest) (items, tot) =
     prepare_chunks e tid rest (items @ file_chunks e tid file, tot + file_size e file)"

text \<open>The invariant of the data model on a file that is uploaded.\<close>

definition chunks_well_formed :: "env \<Rightarrow> file_entry \<Rightarrow> bool" where
  "chunks_well_formed e file \<longleftrightarrow>
     0 \<le> file_size e file \<and>
     int (length (chunks file)) = \<lceil>real_of_int (file_size e file) / real_of_int UPLOAD_CHUNK_SIZE\<rceil>"


section \<open>Calls of the client\<close>

text \<open>
  Each call records its request and asks the service, which sees the requests before it.
\<close>

definition mc_project_info :: "env \<Rightarrow> string \<Rightarrow> world \<Rightarrow> (string + project_info_resp) \<times> world" where
  "mc_project_info e pp w = (project_info e (requests w) pp, sent (GetProjectInfo pp) w)"

definition mc_enough_storage_available ::
  "env \<Rightarrow> change_set \<Rightarrow> world \<Rightarrow> (string + (bool \<times> int)) \<times> world" where
  "mc_enough_storage_available e ch w =
     (enough_storage_available e (requests w) ch, sent (GetStorage ch) w)"

definition mc_post_push ::
  "env \<Rightarrow> string \<Rightarrow> string option \<Rightarrow> change_set \<Rightarrow> world
     \<Rightarrow> (string + project_info_resp) \<times> world" where
  "mc_post_push e pp v ch w = (post_push e (requests w) pp v ch, sent (PostPush pp v ch) w)"

definition mc_post_chunk ::
  "env \<Rightarrow> string option \<Rightarrow> string \<Rightarrow> byte list \<Rightarrow> world \<Rightarrow> (string + (int \<times> string)) \<times> world" where
  "mc_post_chunk e tid cid data w =
     (post_chunk e (requests w) tid cid data, sent (PostChunk tid cid data) w)"

definition mc_post_finish :: "env \<Rightarrow> string option \<Rightarrow> world \<Rightarrow> (string + project_info_resp) \<times> world" where
  "mc_post_finish e tid w = (post_finish e (requests w) tid, sent (PostFinish tid) w)"

definition mc_post_cancel :: "env \<Rightarrow> string option \<Rightarrow> world \<Rightarrow> (string + string) \<times> world" where
  "mc_post_cancel e tid w = (post_cancel e (requests w) tid, sent (PostCancel tid) w)"

text \<open>\<open>str\<close> of an optional string: \<open>None\<close> prints as its name.\<close>

definition str_opt :: "string option \<Rightarrow> string" where
  "str_opt v = (case v of None \<Rightarrow> ''None'' | Some t \<Rightarrow> t)"

section \<open>UploadQueueItem.upload\_blocking\<close>

definition chunk_data :: "upload_queue_item \<Rightarrow> byte list \<Rightarrow> byte list" where
  "chunk_data item content =
     take (nat UPLOAD_CHUNK_SIZE) (drop (chunk_index item * nat UPLOAD_CHUNK_SIZE) content)"

definition mismatch_error :: "upload_queue_item \<Rightarrow> exn" where
  "mismatch_error item =
     ClientError (''Mismatch between uploaded file chunk '' @ chunk_id item @ '' and local one'')"

definition upload_blocking :: "env \<Rightarrow> upload_queue_item \<Rightarrow> world \<Rightarrow> (exn + unit) \<times> world" where
  "upload_blocking e item w =
     (case read_file e (file_path item) of
        None \<Rightarrow> (Inl (OtherException ''FileNotFoundError''), w)
      | Some content \<Rightarrow>
          (let data = chunk_data item content;
               checksum = sha1_hexdigest e data;
               w1 = log_line DEBUG
                      (''Uploading '' @ file_path item @ '' part='' @ str_nat (chunk_index item)) w
           in case mc_post_chunk e (item_transaction_id item) (chunk_id item) data w1 of
                (Inl m, w2) \<Rightarrow> (Inl (ClientError m), w2)
              | (Inr (resp_size, resp_checksum), w2) \<Rightarrow>
                  (let w3 = log_line DEBUG (''Upload finished: '' @ file_path item) w2
                   in if \<not> (resp_size = int (length data) \<and> resp_checksum = checksum)
                      then (case mc_post_cancel e (item_transaction_id item) w3 of
                              (Inl m, w4) \<Rightarrow> (Inl (mismatch_error item), w4)
                            | (Inr r, w4) \<Rightarrow> (Inl (mismatch_error item), w4))
                      else (Inr (), w3))))"

section \<open>The worker pool\<close>

text \<open>
  \<open>_do_upload\<close>: runs in a worker thread. Its second part, lines 321 and 322, is the upload
  with the count of the transferred bytes; its first part, line 318, is the test of the
  cancellation flag.
\<close>

definition upload_and_count ::
  "env \<Rightarrow> upload_queue_item \<Rightarrow> upload_job \<Rightarrow> world \<Rightarrow> (exn + unit) \<times> upload_job \<times> world" where
  "upload_and_count e item job w =
     (case upload_blocking e item w of
        (Inl ex, w') \<Rightarrow> (Inl ex, job, w')
      | (Inr u, w') \<Rightarrow>
          (Inr (), job\<lparr>transferred_size := transferred_size job + item_size item\<rparr>, w'))"

definition do_upload ::
  "env \<Rightarrow> upload_queue_item \<Rightarrow> upload_job \<Rightarrow> world \<Rightarrow> (exn + unit) \<times> upload_job \<times> world" where
  "do_upload e item job w =
     (if is_cancelled job then (Inr (), job, w) else upload_and_count e item job w)"

text \<open>
  Sequential execution of the pool. A worker that takes a queued task calls \<open>_do_upload\<close>,
  which reads the cancellation flag at once: when the flag is set the call returns and the
  task is finished, otherwise the task is executing. When the upload of an executing task
  ends, the bytes are counted and the future records how the call ended. A finished task does
  not run again.
\<close>

definition future_result :: "(exn + unit) \<Rightarrow> future" where
  "future_result r = (case r of Inl ex \<Rightarrow> Done (Some ex) | Inr u \<Rightarrow> Done None)"

definition begin_task :: "nat \<Rightarrow> upload_job \<Rightarrow> upload_job" where
  "begin_task i job =
     job\<lparr>futures := (futures job)[i := (fst (futures job ! i),
                                          if is_cancelled job then Done None else Running)]\<rparr>"

definition finish_task :: "env \<Rightarrow> nat \<Rightarrow> upload_job \<times> world \<Rightarrow> upload_job \<times> world" where
  "finish_task e i s =
     (case s of (job, w) \<Rightarrow>
        (case upload_and_count e (fst (futures job ! i)) job w of
           (r, job', w') \<Rightarrow>
             (job'\<lparr>futures := (futures job')[i := (fst (futures job ! i), future_result r)]\<rparr>,
              w')))"

text \<open>
  A task run to its end: a queued task by the whole of \<open>_do_upload\<close>, an executing task, which
  has read the flag already, by its upload.
\<close>

definition run_task :: "env \<Rightarrow> nat \<Rightarrow> upload_job \<times> world \<Rightarrow> upload_job \<times> world" where
  "run_task e i s =
     (case s of (job, w) \<Rightarrow>
        if i < length (futures job) then
          (case snd (futures job ! i) of
             Done r \<Rightarrow> (job, w)
           | Running \<Rightarrow> finish_task e i (job, w)
           | Pending \<Rightarrow>
               (case do_upload e (fst (futures job ! i)) job w of
                  (r, job', w') \<Rightarrow>
                    (job'\<lparr>futures :=
                            (futures job')[i := (fst (futures job ! i), future_result r)]\<rparr>,
                     w')))
        else (job, w))"

fun run_tasks :: "env \<Rightarrow> nat list \<Rightarrow> upload_job \<times> world \<Rightarrow> upload_job \<times> world" where
  "run_tasks e [] s = s"
| "run_tasks e (i # rest) s = run_tasks e rest (run_task e i s)"

text \<open>
  \<open>executor.shutdown(wait=True)\<close> and \<open>concurrent.futures.wait\<close>: every task that has not
  finished runs to its end, in the order of submission.
\<close>

definition executor_shutdown_wait :: "env \<Rightarrow> upload_job \<Rightarrow> world \<Rightarrow> upload_job \<times> world" where
  "executor_shutdown_wait e job w = run_tasks e [0..<length (futures job)] (job, w)"

definition push_project_wait :: "env \<Rightarrow> upload_job \<Rightarrow> world \<Rightarrow> upload_job \<times> world" where
  "push_project_wait e job w = run_tasks e [0..<length (futures job)] (job, w)"

text \<open>
  The steps of a sequential execution. A free worker takes the first queued task, of not
  more tasks than the pool has workers; the upload of an executing task ends; the controller
  sets the cancellation flag (the first statement of \<open>push_project_cancel\<close>).
\<close>

datatype event = Start | Finish nat | SetCancelled

definition first_pending :: "(upload_queue_item \<times> future) list \<Rightarrow> nat option" where
  "first_pending fs =
     (case filter (\<lambda>k. snd (fs ! k) = Pending) [0..<length fs] of
        [] \<Rightarrow> None
      | k # ks \<Rightarrow> Some k)"

definition running_count :: "(upload_queue_item \<times> future) list \<Rightarrow> nat" where
  "running_count fs = length (filter (\<lambda>t. snd t = Running) fs)"

text \<open>The task a free worker takes, if there is a free worker and a queued task.\<close>

definition next_task :: "upload_job \<Rightarrow> nat option" where
  "next_task job =
     (case executor job of
        None \<Rightarrow> None
      | Some max_workers \<Rightarrow>
          if running_count (futures job) < max_workers then first_pending (futures job)
          else None)"

definition step :: "env \<Rightarrow> event \<Rightarrow> upload_job \<times> world \<Rightarrow> upload_job \<times> world" where
  "step e ev s =
     (case s of (job, w) \<Rightarrow>
        (case ev of
           Start \<Rightarrow>
             (case next_task job of
                None \<Rightarrow> (job, w)
              | Some k \<Rightarrow> (begin_task k job, w))
         | Finish i \<Rightarrow>
             if i < length (futures job) \<and> snd (futures job ! i) = Running
             then finish_task e i (job, w) else (job, w)
         | SetCancelled \<Rightarrow> (job\<lparr>is_cancelled := True\<rparr>, w)))"

fun run_events :: "env \<Rightarrow> event list \<Rightarrow> upload_job \<times> world \<Rightarrow> upload_job \<times> world" where
  "run_events e [] s = s"
| "run_events e (ev # rest) s = run_events e rest (step e ev s)"

text \<open>
  What became of the tasks during an execution. A task is skipped when it is taken with the
  cancellation flag set; an executing task is uploaded when \<open>upload_blocking\<close> returns, and
  failed when it raises. The task an event finishes, if it finishes one:
\<close>

datatype task_result = Uploaded | Skipped | Failed exn

definition task_result_at :: "env \<Rightarrow> nat \<Rightarrow> upload_job \<times> world \<Rightarrow> task_result" where
  "task_result_at e i s =
     (case s of (job, w) \<Rightarrow>
        (case fst (upload_blocking e (fst (futures job ! i)) w) of
           Inl ex \<Rightarrow> Failed ex
         | Inr u \<Rightarrow> Uploaded))"

definition completion ::
  "env \<Rightarrow> event \<Rightarrow> upload_job \<times> world \<Rightarrow> (nat \<times> task_result) option" where
  "completion e ev s =
     (case ev of
        Start \<Rightarrow>
          (case next_task (fst s) of
             None \<Rightarrow> None
           | Some k \<Rightarrow> if is_cancelled (fst s) then Some (k, Skipped) else None)
      | Finish i \<Rightarrow>
          if i < length (futures (fst s)) \<and> snd (futures (fst s) ! i) = Running
          then Some (i, task_result_at e i s) else None
      | SetCancelled \<Rightarrow> None)"

fun completions ::
  "env \<Rightarrow> event list \<Rightarrow> upload_job \<times> world \<Rightarrow> (nat \<times> task_result) list" where
  "completions e [] s = []"
| "completions e (ev # rest) s =
     (case completion e ev s of
        None \<Rightarrow> completions e rest (step e ev s)
      | Some c \<Rightarrow> c # completions e rest (step e ev s))"

section \<open>push\_project\_is\_running\<close>

text \<open>
  The methods of a future. \<open>done()\<close> and \<open>running()\<close> answer at once; \<open>exception()\<close>, called
  without a timeout, waits until the task has finished (\<open>None\<close> here: no answer comes).
\<close>

definition future_done :: "future \<Rightarrow> bool" where
  "future_done f = (case f of Done r \<Rightarrow> True | _ \<Rightarrow> False)"

definition future_running :: "future \<Rightarrow> bool" where
  "future_running f = (case f of Running \<Rightarrow> True | _ \<Rightarrow> False)"

definition future_exception :: "future \<Rightarrow> exn option option" where
  "future_exception f = (case f of Done r \<Rightarrow> Some r | _ \<Rightarrow> None)"

definition push_aborted :: "exn \<Rightarrow> world \<Rightarrow> world" where
  "push_aborted ex w =
     log_line INFO ''--- push aborted''
       (log_line ERROR (''Error while pushing data: '' @ str_exn ex) w)"

fun is_running_loop :: "future list \<Rightarrow> world \<Rightarrow> bool outcome \<times> world" where
  "is_running_loop [] w = (Returns False, w)"
| "is_running_loop (f # rest) w =
     (if future_done f then
        (case future_exception f of
           None \<Rightarrow> (Blocks, w)
         | Some (Some ex) \<Rightarrow> (Raises ex, push_aborted ex w)
         | Some None \<Rightarrow>
             if future_running f then (Returns True, w) else is_running_loop rest w)
      else if future_running f then (Returns True, w)
      else is_running_loop rest w)"

definition push_project_is_running ::
  "upload_job \<Rightarrow> world \<Rightarrow> bool outcome \<times> upload_job \<times> world" where
  "push_project_is_running job w =
     (case is_running_loop (map snd (futures job)) w of (r, w') \<Rightarrow> (r, job, w'))"

text \<open>Calling it again and again: the outcomes of \<open>n\<close> calls, in order.\<close>

fun is_running_calls ::
  "nat \<Rightarrow> upload_job \<Rightarrow> world \<Rightarrow> bool outcome list \<times> upload_job \<times> world" where
  "is_running_calls 0 job w = ([], job, w)"
| "is_running_calls (Suc n) job w =
     (case push_project_is_running job w of
        (r, job', w') \<Rightarrow>
          (case is_running_calls n job' w' of (rs, job'', w'') \<Rightarrow> (r # rs, job'', w'')))"

section \<open>push\_project\_finalize\<close>

text \<open>The loop that makes sure exceptions from threads are not lost.\<close>

fun first_exception :: "future list \<Rightarrow> exn option outcome" where
  "first_exception [] = Returns None"
| "first_exception (f # rest) =
     (case future_exception f of
        None \<Rightarrow> Blocks
      | Some (Some ex) \<Rightarrow> Returns (Some ex)
      | Some None \<Rightarrow> first_exception rest)"

definition size_error_msg :: "upload_job \<Rightarrow> string" where
  "size_error_msg job =
     ''Transferred size ('' @ str_int (transferred_size job) @ '') and expected total size (''
       @ str_int (total_size job) @ '') do not match!''"

text \<open>Lines 279 to 293: the transaction is finished, the local project takes it over.\<close>

definition finalize_apply ::
  "env \<Rightarrow> upload_job \<Rightarrow> world \<Rightarrow> unit outcome \<times> upload_job \<times> world" where
  "finalize_apply e job w =
     (case server_resp job of
        RespInfo r \<Rightarrow>
          (let w1 = w\<lparr>metadata := \<lparr>md_name = project_path job, md_version = version r,
                                     md_files = files r\<rparr>\<rparr>
           in case apply_push_changes e (changes job) of
                Some ex \<Rightarrow>
                  (Raises (ClientError (''Failed to apply push changes: '' @ str_exn ex)), job,
                   log_line INFO ''--- push aborted''
                     (log_line ERROR (''Failed to apply push changes: '' @ str_exn ex) w1))
              | None \<Rightarrow>
                  (let w2 = w1\<lparr>live_tmp_dirs := removeAll (tmp_dir job) (live_tmp_dirs w1)\<rparr>
                   in case version r of
                        None \<Rightarrow> (Raises (OtherException ''TypeError''), job, w2)
                      | Some v \<Rightarrow>
                          (Returns (), job,
                           log_line INFO (''--- push finished - new project version '' @ v) w2)))
      | _ \<Rightarrow> (Raises (OtherException ''TypeError''), job, w))"

text \<open>Lines 259 to 277: finishing the transaction, cancelling it when that fails.\<close>

definition finalize_finish ::
  "env \<Rightarrow> upload_job \<Rightarrow> world \<Rightarrow> unit outcome \<times> upload_job \<times> world" where
  "finalize_finish e job w =
     (let w1 = log_line INFO (''Finishing transaction '' @ str_opt (transaction_id job)) w
      in case mc_post_finish e (transaction_id job) w1 of
           (Inr resp, w2) \<Rightarrow> finalize_apply e (job\<lparr>server_resp := RespInfo resp\<rparr>) w2
         | (Inl err, w2) \<Rightarrow>
             (let w3 = log_line ERROR (''--- push finish failed! '' @ err) w2;
                  w4 = log_line INFO ''canceling the pending transaction...'' w3
              in case mc_post_cancel e (transaction_id job) w4 of
                   (Inr msg, w5) \<Rightarrow>
                     (Raises (ClientError err), job, log_line INFO (''cancel response: '' @ msg) w5)
                 | (Inl err2, w5) \<Rightarrow>
                     (Raises (ClientError err), job, log_line INFO (''cancel response: '' @ err2) w5)))"

text \<open>Lines 254 to 257, and what follows them.\<close>

definition finalize_check_size ::
  "env \<Rightarrow> bool \<Rightarrow> upload_job \<Rightarrow> world \<Rightarrow> unit outcome \<times> upload_job \<times> world" where
  "finalize_check_size e with_upload_of_files job w =
     (if transferred_size job \<noteq> total_size job
      then (Raises (ClientError (''Upload error: '' @ size_error_msg job)), job,
            log_line ERROR (''--- push finish failed! '' @ size_error_msg job) w)
      else if with_upload_of_files then finalize_finish e job w
      else finalize_apply e job w)"

definition push_project_finalize ::
  "env \<Rightarrow> upload_job \<Rightarrow> world \<Rightarrow> unit outcome \<times> upload_job \<times> world" where
  "push_project_finalize e job w =
     (let with_upload_of_files = (executor job \<noteq> None)
      in if with_upload_of_files then
           (case executor_shutdown_wait e job w of
              (job1, w1) \<Rightarrow>
                (case first_exception (map snd (futures job1)) of
                   Blocks \<Rightarrow> (Blocks, job1, w1)
                 | Raises ex \<Rightarrow> (Raises ex, job1, w1)
                 | Returns (Some ex) \<Rightarrow> (Raises ex, job1, push_aborted ex w1)
                 | Returns None \<Rightarrow> finalize_check_size e with_upload_of_files job1 w1))
         else finalize_check_size e with_upload_of_files job w)"

section \<open>push\_project\_cancel\<close>

definition push_project_cancel ::
  "env \<Rightarrow> upload_job \<Rightarrow> world \<Rightarrow> unit outcome \<times> upload_job \<times> world" where
  "push_project_cancel e job0 w0 =
     (let w = log_line INFO ''user cancelled the push...'' w0;
          job = job0\<lparr>is_cancelled := True\<rparr>
      in case executor job of
           None \<Rightarrow> (Raises (OtherException ''AttributeError''), job, w)
         | Some max_workers \<Rightarrow>
             (case executor_shutdown_wait e job w of
                (job1, w1) \<Rightarrow>
                  (case mc_post_cancel e (transaction_id job1) w1 of
                     (Inr msg, w2) \<Rightarrow>
                       (Returns (), job1\<lparr>server_resp := RespMsg msg\<rparr>,
                        log_line INFO (''--- push cancel response: '' @ msg) w2)
                   | (Inl err, w2) \<Rightarrow>
                       (Raises (ClientError err), job1,
                        log_line ERROR (''--- push cancelling failed! '' @ err) w2))))"


section \<open>push\_project\_async\<close>

text \<open>
  The body of \<open>push_project_async\<close> is cut into its stages, last stage first; each stage
  ends by raising, by returning, or by going on to the next one.
\<close>

text \<open>Lines 159 to 206: the job, its chunks, and the start of the uploads in background.\<close>

definition start_upload ::
  "env \<Rightarrow> string \<Rightarrow> change_set \<Rightarrow> string \<Rightarrow> project_info_resp \<Rightarrow> world
     \<Rightarrow> upload_job option outcome \<times> world" where
  "start_upload e pp ch tmp resp w =
     (let upload_files = added ch @ updated ch;
          tid = (if upload_files \<noteq> [] then Some (transaction resp) else None);
          job = UploadJob pp ch tid tmp
      in if upload_files = [] then
           (let w1 = log_line INFO ''not uploading any files'' w;
                job1 = job\<lparr>server_resp := RespInfo resp\<rparr>
            in case push_project_finalize e job1 w1 of
                 (Returns u, job2, w2) \<Rightarrow> (Returns None, w2)
               | (Raises ex, job2, w2) \<Rightarrow> (Raises ex, w2)
               | (Blocks, job2, w2) \<Rightarrow> (Blocks, w2))
         else
           (let w1 = log_line INFO (''got transaction ID '' @ str_opt tid) w
            in case prepare_chunks e tid upload_files ([], 0) of
                 (items, tot) \<Rightarrow>
                   (let job1 = job\<lparr>total_size := tot, upload_queue_items := items\<rparr>;
                        w2 = log_line INFO
                               (''will upload '' @ str_nat (length items)
                                  @ '' items with total size '' @ str_int tot) w1;
                        job2 = job1\<lparr>executor := Some 4,
                                     futures := map (\<lambda>item. (item, Pending)) items\<rparr>
                    in (Returns (Some job2), w2))))"

text \<open>Lines 139 to 157: nothing to do, or the transaction is opened.\<close>

definition open_transaction ::
  "env \<Rightarrow> string \<Rightarrow> string option \<Rightarrow> change_set \<Rightarrow> string \<Rightarrow> world
     \<Rightarrow> upload_job option outcome \<times> world" where
  "open_transaction e pp local_version ch tmp w =
     (if sum_list (map length (changes_values ch)) = 0
      then (Returns None, log_line INFO (''--- push '' @ pp @ '' - nothing to do'') w)
      else
        (let ch1 = ch\<lparr>updated := map (\<lambda>item. item\<lparr>origin_checksum := None\<rparr>) (updated ch)\<rparr>
         in case mc_post_push e pp local_version ch1 w of
              (Inl err, w1) \<Rightarrow>
                (Raises (ClientError err),
                 log_line INFO ''--- push aborted''
                   (log_line ERROR (''Error starting transaction: '' @ err) w1))
            | (Inr resp, w1) \<Rightarrow> start_upload e pp ch1 tmp resp w1))"

text \<open>Lines 113 to 137: the changes, the temporary directory, the storage limit.\<close>

definition collect_changes ::
  "env \<Rightarrow> string \<Rightarrow> string option \<Rightarrow> world \<Rightarrow> upload_job option outcome \<times> world" where
  "collect_changes e pp local_version w =
     (let ch0 = get_push_changes e;
          w1 = log_line DEBUG (''push changes:'' @ [CHR 0x0A] @ pformat e ch0) w;
          tmp = new_tmp_dir e;
          w2 = w1\<lparr>live_tmp_dirs := live_tmp_dirs w1 @ [tmp]\<rparr>;
          ch1 = ch0\<lparr>updated :=
                       map (\<lambda>f. if is_versioned_file e (path f) \<and> diff f = None
                                then copy_versioned_file_for_upload e f tmp else f)
                           (updated ch0)\<rparr>;
          ch2 = ch1\<lparr>added :=
                       map (\<lambda>f. if is_versioned_file e (path f)
                                then copy_versioned_file_for_upload e f tmp else f)
                           (added ch1)\<rparr>
      in if username e = takeWhile (\<lambda>c. c \<noteq> CHR ''/'') pp then
           (case mc_enough_storage_available e ch2 w2 of
              (Inl err, w3) \<Rightarrow> (Raises (ClientError err), w3)
            | (Inr (enough_free_space, freespace), w3) \<Rightarrow>
                if \<not> enough_free_space then
                  (Raises (ClientError (''Storage limit has been reached. Only ''
                                          @ str_int (megabytes e freespace) @ ''MB left'')),
                   log_line ERROR (''--- push '' @ pp @ '' - not enough space'') w3)
                else open_transaction e pp local_version ch2 tmp w3)
         else open_transaction e pp local_version ch2 tmp w2)"

text \<open>Lines 99 to 111: write access and versions.\<close>

definition check_project ::
  "env \<Rightarrow> string \<Rightarrow> string option \<Rightarrow> project_info_resp \<Rightarrow> world
     \<Rightarrow> upload_job option outcome \<times> world" where
  "check_project e pp local_version server_info w =
     (let server_version =
            (case version server_info of None \<Rightarrow> ''v0'' | Some v \<Rightarrow> if v = [] then ''v0'' else v);
          w1 = log_line INFO
                 (''got project info: local version '' @ str_opt local_version
                    @ '' / server version '' @ server_version) w
      in if username e \<notin> set (writersnames server_info) then
           (Raises (ClientError (''You do not seem to have write access to the project (username ''
                                   @ [CHR 0x27] @ username e @ [CHR 0x27] @ '')'')),
            log_line ERROR (''--- push '' @ pp @ '' - username '' @ username e
                              @ '' does not have write access'') w1)
         else if local_version \<noteq> Some server_version then
           (Raises (ClientError
                      (''There is a new version of the project on the server. Please update your local copy.''
                         @ [CHR 0x0A, CHR 0x0A] @ ''Local version: '' @ str_opt local_version
                         @ [CHR 0x0A] @ ''Server version: '' @ server_version)),
            log_line ERROR (''--- push '' @ pp @ '' - not up to date (local ''
                              @ str_opt local_version @ '' vs server '' @ server_version @ '')'') w1)
         else collect_changes e pp local_version w1)"

definition push_project_async :: "env \<Rightarrow> world \<Rightarrow> upload_job option outcome \<times> world" where
  "push_project_async e w =
     (if has_unfinished_pull e then
        (Raises (ClientError
           ''Project is in unfinished pull state. Please resolve unfinished pull and try again.''), w)
      else
        (let pp = md_name (metadata w);
             local_version = md_version (metadata w);
             w1 = log_line INFO (''--- version: '' @ user_agent_info e) w;
             w2 = log_line INFO (''--- start push '' @ pp) w1
         in case mc_project_info e pp w2 of
              (Inl err, w3) \<Rightarrow>
                (Raises (ClientError err),
                 log_line INFO ''--- push aborted''
                   (log_line ERROR (''Error getting project info: '' @ err) w3))
            | (Inr server_info, w3) \<Rightarrow> check_project e pp local_version server_info w3))"


section \<open>A small project to run the push on\<close>

text \<open>
  One user, \<open>alice\<close>, who owns and may write the project \<open>alice/proj\<close> at version \<open>v1\<close>;
  every file holds the same five bytes; the digest is a stand-in (the bytes' sum in decimal).
  The change set and the answers of the service to a chunk, to finish and to cancel are
  left open.
\<close>

definition demo_digest :: "byte list \<Rightarrow> string" where
  "demo_digest d = str_nat (sum_list (map unat d))"

definition demo_info :: "string \<Rightarrow> project_info_resp" where
  "demo_info v = \<lparr>transaction = ''t1'', version = Some v, files = [], writersnames = [''alice'']\<rparr>"

definition demo_file :: "string \<Rightarrow> int \<Rightarrow> string list \<Rightarrow> file_entry" where
  "demo_file p s cs =
     \<lparr>path = p, size_f = s, diff = None, upload_file = None, chunks = cs,
      origin_checksum = None\<rparr>"

definition demo_world :: world where
  "demo_world =
     \<lparr>requests = [], log = [],
      metadata = \<lparr>md_name = ''alice/proj'', md_version = Some ''v1'', md_files = []\<rparr>,
      live_tmp_dirs = []\<rparr>"

definition honest_ack :: "byte list \<Rightarrow> string + (int \<times> string)" where
  "honest_ack data = Inr (int (length data), demo_digest data)"

definition short_ack :: "byte list \<Rightarrow> string + (int \<times> string)" where
  "short_ack data = Inr (int (length data) - 1, demo_digest data)"

definition demo_env ::
  "change_set \<Rightarrow> (byte list \<Rightarrow> string + (int \<times> string)) \<Rightarrow> (string + project_info_resp)
     \<Rightarrow> (string + string) \<Rightarrow> env" where
  "demo_env ch chunk_answer finish_answer cancel_answer =
     \<lparr>has_unfinished_pull = False,
      user_agent_info = ''python-api-client'',
      username = ''alice'',
      get_push_changes = ch,
      pformat = (\<lambda>c. ''changes''),
      is_versioned_file = (\<lambda>p. False),
      copy_versioned_file_for_upload = (\<lambda>f d. f),
      fpath = (\<lambda>p. p),
      fpath_meta = (\<lambda>p. p),
      new_tmp_dir = ''mergin-py-client-tmp'',
      read_file = (\<lambda>p. Some [1, 2, 3, 4, 5]),
      sha1_hexdigest = demo_digest,
      project_info = (\<lambda>h pp. Inr (demo_info ''v1'')),
      enough_storage_available = (\<lambda>h c. Inr (True, 1000000)),
      post_push = (\<lambda>h pp v c. Inr (demo_info ''v1'')),
      post_chunk = (\<lambda>h tid cid data. chunk_answer data),
      post_finish = (\<lambda>h tid. finish_answer),
      post_cancel = (\<lambda>h tid. cancel_answer),
      apply_push_changes = (\<lambda>c. None),
      megabytes = (\<lambda>freespace. freespace div (1024 * 1024))\<rparr>"

definition no_changes :: change_set where
  "no_changes = \<lparr>added = [], updated = [], removed = [], renamed = []\<rparr>"

text \<open>A job of one file of five bytes, as \<open>push_project_async\<close> builds it.\<close>

definition demo_item :: upload_queue_item where
  "demo_item = UploadQueueItem ''a.txt'' 5 (Some ''t1'') ''c1'' 0"

definition demo_job :: "future \<Rightarrow> upload_job" where
  "demo_job st =
     (UploadJob ''alice/proj'' (no_changes\<lparr>added := [demo_file ''a.txt'' 5 [''c1'']]\<rparr>)
        (Some ''t1'') ''mergin-py-client-tmp'')
       \<lparr>total_size := 5, upload_queue_items := [demo_item], executor := Some 4,
        futures := [(demo_item, st)]\<rparr>"


text \<open>Two added files: five bytes in one chunk, and 25 MiB in three chunks.\<close>

definition demo_changes :: change_set where
  "demo_changes =
     no_changes\<lparr>added := [demo_file ''a.txt'' 5 [''c1''],
                            demo_file ''b.bin'' 26214400 [''c2'', ''c3'', ''c4'']]\<rparr>"

text \<open>
  A job of two tasks: the first has failed, the second is executing.
\<close>

definition failed_job :: upload_job where
  "failed_job =
     (demo_job Running)\<lparr>upload_queue_items := [demo_item, demo_item],
        futures := [(demo_item, Done (Some (ClientError ''connection lost''))),
                    (demo_item, Running)]\<rparr>"

text \<open>Change sets of one file: a renamed one; an added one of five bytes in one chunk.\<close>

definition renamed_only :: change_set where
  "renamed_only = no_changes\<lparr>renamed := [demo_file ''old.txt'' 0 []]\<rparr>"

definition one_added :: change_set where
  "one_added = no_changes\<lparr>added := [demo_file ''a.txt'' 5 [''c1'']]\<rparr>"

section \<open>Notions used in the statements\<close>

text \<open>
  The bytes of the tasks that an execution has uploaded: the sizes of the items whose
  completion is recorded as uploaded.
\<close>

definition uploaded_size ::
  "(upload_queue_item \<times> future) list \<Rightarrow> (nat \<times> task_result) list \<Rightarrow> int" where
  "uploaded_size fs cs =
     sum_list (map (\<lambda>c. item_size (fst (fs ! fst c))) (filter (\<lambda>c. snd c = Uploaded) cs))"

text \<open>A request to finish (commit) a transaction.\<close>

definition is_finish_request :: "request \<Rightarrow> bool" where
  "is_finish_request r = (case r of PostFinish tid \<Rightarrow> True | _ \<Rightarrow> False)"

text \<open>
  The job and the world when \<open>push_project_finalize\<close> has passed its first step: the pool, if
  there is one, is shut down.
\<close>

definition drained :: "env \<Rightarrow> upload_job \<Rightarrow> world \<Rightarrow> upload_job \<times> world" where
  "drained e job w = (if executor job = None then (job, w) else executor_shutdown_wait e job w)"

section \<open>The chunk plan\<close>

lemma ceil_bounds:
  fixes s U :: int
  assumes U: "0 < U" and n: "int n = \<lceil>real_of_int s / real_of_int U\<rceil>"
  shows "(int n - 1) * U < s \<and> s \<le> int n * U"
proof -
  have "int n = - ((- s) div U)"
    using n by (simp add: ceiling_divide_eq_div)
  hence d: "(- s) div U = - int n" by simp
  have "U * ((- s) div U) + (- s) mod U = - s" by simp
  moreover have "0 \<le> (- s) mod U" "(- s) mod U < U" using U by simp_all
  ultimately have "- s - U < U * (- int n)" "U * (- int n) \<le> - s"
    unfolding d by linarith+
  thus ?thesis by (simp add: algebra_simps)
qed

lemma sum_chunk_sizes:
  fixes s U :: int
  assumes U: "0 < U" and lo: "(int n - 1) * U < s" and hi: "s \<le> int n * U" and s: "0 \<le> s"
  shows "(\<Sum>i<n. min U (s - int i * U)) = s"
proof (cases n)
  case 0
  with hi s show ?thesis by simp
next
  case (Suc m)
  have full: "min U (s - int i * U) = U" if "i < m" for i
  proof -
    have "int i + 1 \<le> int m" using that by simp
    hence "(int i + 1) * U \<le> int m * U" using U by (simp only: mult_right_mono less_imp_le)
    with lo Suc show ?thesis by (simp add: algebra_simps)
  qed
  have lst: "min U (s - int m * U) = s - int m * U"
    using hi Suc by (simp add: algebra_simps)
  have "(\<Sum>i<n. min U (s - int i * U)) = (\<Sum>i<m. min U (s - int i * U)) + min U (s - int m * U)"
    using Suc by simp
  also have "(\<Sum>i<m. min U (s - int i * U)) = (\<Sum>i<m. U)"
    by (rule sum.cong) (simp_all add: full)
  finally show ?thesis using lst by (simp add: algebra_simps)
qed

lemma last_chunk_size:
  fixes s U :: int
  assumes U: "0 < U" and lo: "(int n - 1) * U < s" and hi: "s \<le> int n * U" and n: "0 < n"
  shows "min U (s - (int n - 1) * U) = (if s mod U = 0 then U else s mod U)"
proof -
  let ?r = "s - (int n - 1) * U"
  have r: "0 < ?r" "?r \<le> U" using lo hi by (simp_all add: algebra_simps)
  have m: "min U ?r = ?r" using r by simp
  show ?thesis
  proof (cases "?r = U")
    case True
    hence "s = int n * U" by (simp add: algebra_simps)
    thus ?thesis using m True by simp
  next
    case False
    hence "?r < U" using r by simp
    hence "s mod U = ?r"
      using r by (metis add.commute diff_add_cancel mod_mult_self1 mod_pos_pos_trivial less_imp_le)
    thus ?thesis using m r by simp
  qed
qed

lemma chunks_well_formed_div:
  "chunks_well_formed e file \<longleftrightarrow>
     0 \<le> file_size e file \<and>
     int (length (chunks file)) = - ((- file_size e file) div UPLOAD_CHUNK_SIZE)"
  by (simp only: chunks_well_formed_def ceiling_divide_eq_div)

lemma upload_chunk_size_pos: "0 < UPLOAD_CHUNK_SIZE"
  by (simp add: UPLOAD_CHUNK_SIZE_def)

lemma sizes_of_file_chunks:
  "map item_size (file_chunks e tid file) =
     map (\<lambda>i. min UPLOAD_CHUNK_SIZE (file_size e file - int i * UPLOAD_CHUNK_SIZE))
       [0..<length (chunks file)]"
proof -
  have "map item_size (file_chunks e tid file) =
          map ((\<lambda>i. min UPLOAD_CHUNK_SIZE (file_size e file - int i * UPLOAD_CHUNK_SIZE)) \<circ> fst)
            (enumerate 0 (chunks file))"
    by (simp add: file_chunks_def UploadQueueItem_def comp_def case_prod_beta)
  also have "\<dots> = map (\<lambda>i. min UPLOAD_CHUNK_SIZE (file_size e file - int i * UPLOAD_CHUNK_SIZE))
                     (map fst (enumerate 0 (chunks file)))"
    by (simp only: map_map)
  finally show ?thesis by (simp only: map_fst_enumerate add_0)
qed

lemma file_chunks_sum:
  assumes "chunks_well_formed e file"
  shows "sum_list (map item_size (file_chunks e tid file)) = file_size e file"
proof -
  let ?n = "length (chunks file)"
  have b: "(int ?n - 1) * UPLOAD_CHUNK_SIZE < file_size e file \<and>
           file_size e file \<le> int ?n * UPLOAD_CHUNK_SIZE"
    using assms by (intro ceil_bounds [OF upload_chunk_size_pos]) (simp add: chunks_well_formed_def)
  have "sum_list (map item_size (file_chunks e tid file)) =
          (\<Sum>i<?n. min UPLOAD_CHUNK_SIZE (file_size e file - int i * UPLOAD_CHUNK_SIZE))"
    by (simp only: sizes_of_file_chunks interv_sum_list_conv_sum_set_nat atLeast_upt [symmetric]
          lessThan_atLeast0)
  also have "\<dots> = file_size e file"
    using b assms by (intro sum_chunk_sizes [OF upload_chunk_size_pos]) (simp_all add: chunks_well_formed_def)
  finally show ?thesis .
qed

lemma file_chunks_bounded:
  "it \<in> set (file_chunks e tid file) \<Longrightarrow> item_size it \<le> UPLOAD_CHUNK_SIZE"
proof -
  assume "it \<in> set (file_chunks e tid file)"
  hence "item_size it \<in> set (map item_size (file_chunks e tid file))" by simp
  thus ?thesis unfolding sizes_of_file_chunks by auto
qed

lemma file_chunks_positive:
  assumes "chunks_well_formed e file" and "it \<in> set (file_chunks e tid file)"
  shows "0 < item_size it"
proof -
  let ?n = "length (chunks file)"
  have "(int ?n - 1) * UPLOAD_CHUNK_SIZE < file_size e file \<and>
        file_size e file \<le> int ?n * UPLOAD_CHUNK_SIZE"
    using assms(1) by (intro ceil_bounds [OF upload_chunk_size_pos]) (simp add: chunks_well_formed_def)
  hence b: "(int ?n - 1) * UPLOAD_CHUNK_SIZE < file_size e file" by simp
  from assms(2) have "item_size it \<in> set (map item_size (file_chunks e tid file))" by simp
  then obtain i where i: "i < ?n"
    and it: "item_size it = min UPLOAD_CHUNK_SIZE (file_size e file - int i * UPLOAD_CHUNK_SIZE)"
    unfolding sizes_of_file_chunks by auto
  have "int i \<le> int ?n - 1" using i by simp
  hence "int i * UPLOAD_CHUNK_SIZE \<le> (int ?n - 1) * UPLOAD_CHUNK_SIZE"
    using upload_chunk_size_pos by (simp only: mult_right_mono less_imp_le)
  hence "0 < file_size e file - int i * UPLOAD_CHUNK_SIZE" using b by linarith
  thus ?thesis unfolding it using upload_chunk_size_pos by linarith
qed

lemma file_chunks_last:
  assumes "chunks_well_formed e file" and "chunks file \<noteq> []"
  shows "item_size (last (file_chunks e tid file)) =
           (if file_size e file mod UPLOAD_CHUNK_SIZE = 0 then UPLOAD_CHUNK_SIZE
            else file_size e file mod UPLOAD_CHUNK_SIZE)"
proof -
  let ?n = "length (chunks file)"
  have n: "0 < ?n" using assms(2) by simp
  have "(int ?n - 1) * UPLOAD_CHUNK_SIZE < file_size e file \<and>
        file_size e file \<le> int ?n * UPLOAD_CHUNK_SIZE"
    using assms(1) by (intro ceil_bounds [OF upload_chunk_size_pos]) (simp add: chunks_well_formed_def)
  hence b: "(int ?n - 1) * UPLOAD_CHUNK_SIZE < file_size e file"
          "file_size e file \<le> int ?n * UPLOAD_CHUNK_SIZE" by simp_all
  have "length (file_chunks e tid file) = ?n" by (simp add: file_chunks_def)
  hence ne: "file_chunks e tid file \<noteq> []" using n by auto
  have "item_size (last (file_chunks e tid file)) = last (map item_size (file_chunks e tid file))"
    using ne by (simp add: last_map)
  also have "\<dots> = min UPLOAD_CHUNK_SIZE (file_size e file - int (?n - 1) * UPLOAD_CHUNK_SIZE)"
    unfolding sizes_of_file_chunks using n by (simp add: last_map last_upt)
  also have "int (?n - 1) = int ?n - 1" using assms(2) by (cases "chunks file") simp_all
  finally show ?thesis
    using last_chunk_size [OF upload_chunk_size_pos b n] by simp
qed

lemma prepare_chunks_acc:
  "prepare_chunks e tid fs (items, tot) =
     (items @ concat (map (file_chunks e tid) fs), tot + sum_list (map (file_size e) fs))"
  by (induction fs arbitrary: items tot) (simp_all add: add.assoc)

lemma prepare_chunks_eq:
  "prepare_chunks e tid fs ([], 0) =
     (concat (map (file_chunks e tid) fs), sum_list (map (file_size e) fs))"
  by (simp add: prepare_chunks_acc)

lemma plan_sum:
  assumes "\<forall>f \<in> set fs. chunks_well_formed e f"
  shows "sum_list (map item_size (concat (map (file_chunks e tid) fs))) =
           sum_list (map (file_size e) fs)"
  using assms by (induction fs) (simp_all add: file_chunks_sum)



lemma start_upload_nonempty:
  assumes "added ch @ updated ch \<noteq> []"
  shows "start_upload e pp ch tmp resp w =
     (Returns (Some ((UploadJob pp ch (Some (transaction resp)) tmp)
        \<lparr>total_size := sum_list (map (file_size e) (added ch @ updated ch)),
         upload_queue_items :=
           concat (map (file_chunks e (Some (transaction resp))) (added ch @ updated ch)),
         executor := Some 4,
         futures := map (\<lambda>item. (item, Pending))
           (concat (map (file_chunks e (Some (transaction resp))) (added ch @ updated ch)))\<rparr>)),
      log_line INFO
        (''will upload ''
           @ str_nat (length (concat (map (file_chunks e (Some (transaction resp)))
                                  (added ch @ updated ch))))
           @ '' items with total size ''
           @ str_int (sum_list (map (file_size e) (added ch @ updated ch))))
        (log_line INFO (''got transaction ID '' @ transaction resp) w))"
proof -
  have "(added ch @ updated ch = []) = False" using assms by simp
  thus ?thesis
    unfolding start_upload_def Let_def prepare_chunks_eq
    by (simp only: if_False if_True not_False_eq_True prod.case str_opt_def option.case)
qed

lemma start_upload_empty:
  assumes "added ch @ updated ch = []"
  shows "fst (start_upload e pp ch tmp resp w) \<noteq> Returns (Some job)"
proof -
  obtain r j w' where f: "push_project_finalize e
      ((UploadJob pp ch None tmp)\<lparr>server_resp := RespInfo resp\<rparr>)
      (log_line INFO ''not uploading any files'' w) = (r, j, w')"
    by (metis prod_cases3)
  have "start_upload e pp ch tmp resp w =
          (case (r, j, w') of
             (Returns u, job2, w2) \<Rightarrow> (Returns None, w2)
           | (Raises ex, job2, w2) \<Rightarrow> (Raises ex, w2)
           | (Blocks, job2, w2) \<Rightarrow> (Blocks, w2))"
    unfolding start_upload_def Let_def using assms f by simp
  thus ?thesis by (cases r) simp_all
qed

lemma start_upload_job:
  assumes "start_upload e pp ch tmp resp w = (Returns (Some job), w')"
  shows "upload_queue_items job =
           concat (map (file_chunks e (transaction_id job)) (added ch @ updated ch)) \<and>
         total_size job = sum_list (map (file_size e) (added ch @ updated ch)) \<and>
         transferred_size job = 0 \<and>
         futures job = map (\<lambda>item. (item, Pending)) (upload_queue_items job) \<and>
         is_cancelled job = False \<and> executor job = Some 4"
proof (cases "added ch @ updated ch = []")
  case True
  from start_upload_empty [OF True, of e pp tmp resp w job] assms show ?thesis by simp
next
  case False
  let ?J = "(UploadJob pp ch (Some (transaction resp)) tmp)
        \<lparr>total_size := sum_list (map (file_size e) (added ch @ updated ch)),
         upload_queue_items :=
           concat (map (file_chunks e (Some (transaction resp))) (added ch @ updated ch)),
         executor := Some 4,
         futures := map (\<lambda>item. (item, Pending))
           (concat (map (file_chunks e (Some (transaction resp))) (added ch @ updated ch)))\<rparr>"
  have "fst (start_upload e pp ch tmp resp w) = Returns (Some ?J)"
    by (simp only: start_upload_nonempty [OF False] fst_conv)
  hence "Returns (Some job) = Returns (Some ?J)"
    by (simp only: assms fst_conv)
  hence eq: "job = ?J"
    by (simp only: outcome.inject option.inject)
  show ?thesis
    unfolding eq by (simp add: UploadJob_def)
qed

text \<open>
  C1: when every file to be uploaded has a byte size (not negative) and carries exactly
  \<open>ceil(file_size / UPLOAD_CHUNK_SIZE)\<close> chunk identifiers, the job that \<open>push_project_async\<close>
  plans has the items of its files in order, their sizes sum to the job's \<open>total_size\<close>, no
  item is larger than \<open>UPLOAD_CHUNK_SIZE\<close>, and the last item of each file has the size
  \<open>file_size mod UPLOAD_CHUNK_SIZE\<close>, or a full chunk when that is zero.
\<close>

theorem chunk_plan_sizes:
  assumes "start_upload e pp ch tmp resp w = (Returns (Some job), w')"
    and "\<forall>f \<in> set (added ch @ updated ch). chunks_well_formed e f"
  shows "upload_queue_items job =
           concat (map (file_chunks e (transaction_id job)) (added ch @ updated ch)) \<and>
         sum_list (map item_size (upload_queue_items job)) = total_size job \<and>
         (\<forall>it \<in> set (upload_queue_items job). item_size it \<le> UPLOAD_CHUNK_SIZE) \<and>
         (\<forall>f \<in> set (added ch @ updated ch). chunks f \<noteq> [] \<longrightarrow>
            item_size (last (file_chunks e (transaction_id job) f)) =
              (if file_size e f mod UPLOAD_CHUNK_SIZE = 0 then UPLOAD_CHUNK_SIZE
               else file_size e f mod UPLOAD_CHUNK_SIZE))"
proof -
  note j = start_upload_job [OF assms(1)]
  have 1: "upload_queue_items job =
             concat (map (file_chunks e (transaction_id job)) (added ch @ updated ch))"
    using j by simp
  have 2: "sum_list (map item_size (upload_queue_items job)) = total_size job"
    using j plan_sum [OF assms(2)] by simp
  have 3: "\<forall>it \<in> set (upload_queue_items job). item_size it \<le> UPLOAD_CHUNK_SIZE"
    unfolding 1 using file_chunks_bounded by auto
  have 4: "\<forall>f \<in> set (added ch @ updated ch). chunks f \<noteq> [] \<longrightarrow>
            item_size (last (file_chunks e (transaction_id job) f)) =
              (if file_size e f mod UPLOAD_CHUNK_SIZE = 0 then UPLOAD_CHUNK_SIZE
               else file_size e f mod UPLOAD_CHUNK_SIZE)"
    using assms(2) file_chunks_last by blast
  from 1 2 3 4 show ?thesis by blast
qed


theorem chunk_plan_sizes_witness:
  "chunks_well_formed (demo_env demo_changes honest_ack (Inl ''no'') (Inl ''no''))
     (demo_file ''a.txt'' 5 [''c1'']) \<and>
   chunks_well_formed (demo_env demo_changes honest_ack (Inl ''no'') (Inl ''no''))
     (demo_file ''b.bin'' 26214400 [''c2'', ''c3'', ''c4'']) \<and>
   (case fst (start_upload (demo_env demo_changes honest_ack (Inl ''no'') (Inl ''no''))
                ''alice/proj'' demo_changes ''tmp'' (demo_info ''v1'') demo_world) of
      Returns (Some job) \<Rightarrow>
        sum_list (map item_size (upload_queue_items job)) = total_size job \<and>
        total_size job = 26214405 \<and>
        map item_size (upload_queue_items job) = [5, 10485760, 10485760, 5242880]
    | _ \<Rightarrow> False)"
proof -
  let ?E = "demo_env demo_changes honest_ack (Inl ''no'') (Inl ''no'')"
  have ne: "added demo_changes @ updated demo_changes \<noteq> []"
    by (simp add: demo_changes_def no_changes_def)
  note run = start_upload_nonempty [OF ne, of ?E "''alice/proj''" "''tmp''" "demo_info ''v1''" demo_world]
  have wf1: "chunks_well_formed ?E (demo_file ''a.txt'' 5 [''c1''])"
    by (simp add: chunks_well_formed_div file_size_def upload_source_def demo_file_def
          UPLOAD_CHUNK_SIZE_def)
  have wf2: "chunks_well_formed ?E (demo_file ''b.bin'' 26214400 [''c2'', ''c3'', ''c4''])"
    by (simp add: chunks_well_formed_div file_size_def upload_source_def demo_file_def
          UPLOAD_CHUNK_SIZE_def)
  have wf: "\<forall>f \<in> set (added demo_changes @ updated demo_changes). chunks_well_formed ?E f"
    using wf1 wf2 by (simp add: demo_changes_def no_changes_def)
  note plan = chunk_plan_sizes [OF run wf]
  have tot: "sum_list (map (file_size ?E) (added demo_changes @ updated demo_changes)) = 26214405"
    by (simp add: demo_changes_def no_changes_def file_size_def upload_source_def demo_file_def)
  have sizes: "map item_size (concat (map (file_chunks ?E (Some (transaction (demo_info ''v1''))))
                 (added demo_changes @ updated demo_changes))) = [5, 10485760, 10485760, 5242880]"
    by (simp add: demo_changes_def no_changes_def sizes_of_file_chunks file_size_def
          upload_source_def demo_file_def UPLOAD_CHUNK_SIZE_def upt_rec)
  show ?thesis
    using wf1 wf2 plan tot sizes unfolding run by (simp add: UploadJob_def)
qed

section \<open>A chunk the server acknowledges wrongly\<close>

text \<open>
  C3: when the acknowledgement of a chunk reports a size other than the number of bytes sent,
  or a checksum other than the local digest of those bytes, \<open>upload_blocking\<close> raises the
  mismatch \<open>ClientError\<close>, having sent exactly one cancel request for the transaction after
  the chunk; whatever the service answers to the cancel request, failure included.
\<close>

theorem chunk_mismatch_cancels_once:
  assumes "read_file e (file_path item) = Some content"
    and "post_chunk e (requests w) (item_transaction_id item) (chunk_id item)
           (chunk_data item content) = Inr (resp_size, resp_checksum)"
    and "resp_size \<noteq> int (length (chunk_data item content)) \<or>
         resp_checksum \<noteq> sha1_hexdigest e (chunk_data item content)"
  shows "fst (upload_blocking e item w) =
           Inl (ClientError (''Mismatch between uploaded file chunk '' @ chunk_id item
                               @ '' and local one'')) \<and>
         requests (snd (upload_blocking e item w)) =
           requests w @ [PostChunk (item_transaction_id item) (chunk_id item)
                           (chunk_data item content),
                         PostCancel (item_transaction_id item)]"
proof (cases "post_cancel e
                (requests w @ [PostChunk (item_transaction_id item) (chunk_id item)
                                 (chunk_data item content)])
                (item_transaction_id item)")
  case (Inl m)
  with assms show ?thesis
    by (auto simp: upload_blocking_def Let_def mc_post_chunk_def mc_post_cancel_def sent_def
          log_line_def mismatch_error_def)
next
  case (Inr r)
  with assms show ?thesis
    by (auto simp: upload_blocking_def Let_def mc_post_chunk_def mc_post_cancel_def sent_def
          log_line_def mismatch_error_def)
qed

theorem chunk_mismatch_cancels_once_witness:
  "fst (upload_blocking (demo_env no_changes short_ack (Inl ''no'') (Inl ''cancel failed''))
          demo_item demo_world) =
     Inl (ClientError ''Mismatch between uploaded file chunk c1 and local one'') \<and>
   requests (snd (upload_blocking (demo_env no_changes short_ack (Inl ''no'') (Inl ''cancel failed''))
          demo_item demo_world)) =
     [PostChunk (Some ''t1'') ''c1'' [1, 2, 3, 4, 5], PostCancel (Some ''t1'')]"
proof -
  let ?E = "demo_env no_changes short_ack (Inl ''no'') (Inl ''cancel failed'')"
  have d: "chunk_data demo_item [1, 2, 3, 4, 5] = [1, 2, 3, 4, 5]"
    by (simp add: chunk_data_def demo_item_def UploadQueueItem_def UPLOAD_CHUNK_SIZE_def)
  have h1: "read_file ?E (file_path demo_item) = Some [1, 2, 3, 4, 5]"
    by (simp add: demo_env_def)
  have h2: "post_chunk ?E (requests demo_world) (item_transaction_id demo_item)
              (chunk_id demo_item) (chunk_data demo_item [1, 2, 3, 4, 5]) =
            Inr (4, demo_digest [1, 2, 3, 4, 5])"
    by (simp add: d demo_env_def short_ack_def)
  have h3: "4 \<noteq> int (length (chunk_data demo_item [1, 2, 3, 4, 5])) \<or>
            demo_digest [1, 2, 3, 4, 5] \<noteq> sha1_hexdigest ?E (chunk_data demo_item [1, 2, 3, 4, 5])"
    by (simp add: d)
  from chunk_mismatch_cancels_once [OF h1 h2 h3, unfolded d] show ?thesis
    by (simp add: demo_item_def UploadQueueItem_def demo_world_def)
qed

section \<open>Finalizing\<close>

lemma upload_blocking_no_finish:
  "filter is_finish_request (requests (snd (upload_blocking e item w))) =
     filter is_finish_request (requests w)"
  by (simp add: upload_blocking_def Let_def mc_post_chunk_def mc_post_cancel_def sent_def
        log_line_def is_finish_request_def split: option.split sum.split prod.split)

lemma upload_and_count_no_finish:
  "filter is_finish_request (requests (snd (snd (upload_and_count e item job w)))) =
     filter is_finish_request (requests w)"
proof (cases "upload_blocking e item w")
  case (Pair r w')
  with upload_blocking_no_finish [of e item w] show ?thesis
    by (cases r) (simp_all add: upload_and_count_def)
qed

lemma do_upload_no_finish:
  "filter is_finish_request (requests (snd (snd (do_upload e item job w)))) =
     filter is_finish_request (requests w)"
  by (simp add: do_upload_def upload_and_count_no_finish)

lemma finish_task_no_finish:
  "filter is_finish_request (requests (snd (finish_task e i (job, w)))) =
     filter is_finish_request (requests w)"
proof -
  obtain r job' w' where d: "upload_and_count e (fst (futures job ! i)) job w = (r, job', w')"
    by (cases "upload_and_count e (fst (futures job ! i)) job w")
  from upload_and_count_no_finish [of e "fst (futures job ! i)" job w] d
  have "filter is_finish_request (requests w') = filter is_finish_request (requests w)" by simp
  with d show ?thesis by (simp add: finish_task_def)
qed

lemma run_task_no_finish:
  "filter is_finish_request (requests (snd (run_task e i s))) =
     filter is_finish_request (requests (snd s))"
proof (cases s)
  case (Pair job w)
  show ?thesis
  proof (cases "i < length (futures job)")
    case False
    with Pair show ?thesis by (simp add: run_task_def)
  next
    case True
    obtain r job' w' where d: "do_upload e (fst (futures job ! i)) job w = (r, job', w')"
      by (cases "do_upload e (fst (futures job ! i)) job w")
    from do_upload_no_finish [of e "fst (futures job ! i)" job w] d
    have "filter is_finish_request (requests w') = filter is_finish_request (requests w)" by simp
    with Pair True d finish_task_no_finish [of e i job w] show ?thesis
      by (cases "snd (futures job ! i)") (simp_all add: run_task_def)
  qed
qed

lemma run_tasks_no_finish:
  "filter is_finish_request (requests (snd (run_tasks e is s))) =
     filter is_finish_request (requests (snd s))"
  by (induction "is" arbitrary: s) (simp_all add: run_task_no_finish)

lemma drained_no_finish:
  "filter is_finish_request (requests (snd (drained e job w))) =
     filter is_finish_request (requests w)"
  by (simp add: drained_def executor_shutdown_wait_def run_tasks_no_finish)

text \<open>
  C2: when, the pool shut down and no task having raised, \<open>transferred_size\<close> differs from
  \<open>total_size\<close>, \<open>push_project_finalize\<close> raises the size mismatch \<open>ClientError\<close> and sends
  no request of its own: the requests are those the workers had sent, and no finish request
  is among the new ones. The job may have a pool and a transaction or not.
\<close>

theorem finalize_size_mismatch:
  assumes "drained e job w = (job1, w1)"
    and "executor job \<noteq> None \<longrightarrow> first_exception (map snd (futures job1)) = Returns None"
    and "transferred_size job1 \<noteq> total_size job1"
  shows "push_project_finalize e job w =
           (Raises (ClientError (''Upload error: '' @ size_error_msg job1)), job1,
            log_line ERROR (''--- push finish failed! '' @ size_error_msg job1) w1) \<and>
         requests (snd (snd (push_project_finalize e job w))) = requests w1 \<and>
         filter is_finish_request (requests (snd (snd (push_project_finalize e job w)))) =
           filter is_finish_request (requests w)"
proof -
  have res: "push_project_finalize e job w =
           (Raises (ClientError (''Upload error: '' @ size_error_msg job1)), job1,
            log_line ERROR (''--- push finish failed! '' @ size_error_msg job1) w1)"
  proof (cases "executor job = None")
    case True
    with assms show ?thesis
      by (simp add: push_project_finalize_def drained_def finalize_check_size_def)
  next
    case False
    with assms show ?thesis
      by (simp add: push_project_finalize_def drained_def finalize_check_size_def)
  qed
  have "filter is_finish_request (requests w1) = filter is_finish_request (requests w)"
    using drained_no_finish [of e job w] assms(1) by simp
  thus ?thesis unfolding res by (simp add: log_line_def)
qed


lemma demo_job_drained:
  "drained e (demo_job (Done r)\<lparr>transferred_size := n\<rparr>) w =
     (demo_job (Done r)\<lparr>transferred_size := n\<rparr>, w)"
  by (simp add: drained_def executor_shutdown_wait_def run_task_def demo_job_def UploadJob_def)

theorem finalize_size_mismatch_witness:
  "fst (push_project_finalize (demo_env no_changes honest_ack (Inr (demo_info ''v2'')) (Inr ''ok''))
          (demo_job (Done None)\<lparr>transferred_size := 0\<rparr>) demo_world) =
     Raises (ClientError
       ''Upload error: Transferred size (0) and expected total size (5) do not match!'') \<and>
   requests (snd (snd (push_project_finalize
          (demo_env no_changes honest_ack (Inr (demo_info ''v2'')) (Inr ''ok''))
          (demo_job (Done None)\<lparr>transferred_size := 0\<rparr>) demo_world))) = []"
proof -
  let ?E = "demo_env no_changes honest_ack (Inr (demo_info ''v2'')) (Inr ''ok'')"
  let ?J = "demo_job (Done None)\<lparr>transferred_size := 0\<rparr>"
  have h1: "drained ?E ?J demo_world = (?J, demo_world)"
    by (rule demo_job_drained)
  have h2: "executor ?J \<noteq> None \<longrightarrow> first_exception (map snd (futures ?J)) = Returns None"
    by (simp add: demo_job_def UploadJob_def future_exception_def)
  have h3: "transferred_size ?J \<noteq> total_size ?J"
    by (simp add: demo_job_def UploadJob_def)
  have m: "size_error_msg ?J =
             ''Transferred size (0) and expected total size (5) do not match!''"
    by (simp add: size_error_msg_def demo_job_def UploadJob_def str_int_def str_nat.simps
          digit_char_def)
  from finalize_size_mismatch [OF h1 h2 h3] show ?thesis
    unfolding m by (simp add: demo_world_def log_line_def)
qed

text \<open>
  C7: when the finish request of \<open>push_project_finalize\<close> fails, the failure is logged, one
  cancel request follows whose answer, failure or not, is only logged, and the error of the
  finish request is the one raised.
\<close>

theorem finalize_finish_failure:
  assumes "executor job \<noteq> None"
    and "drained e job w = (job1, w1)"
    and "first_exception (map snd (futures job1)) = Returns None"
    and "transferred_size job1 = total_size job1"
    and "post_finish e (requests w1) (transaction_id job1) = Inl err"
  shows "fst (push_project_finalize e job w) = Raises (ClientError err) \<and>
         requests (snd (snd (push_project_finalize e job w))) =
           requests w1 @ [PostFinish (transaction_id job1), PostCancel (transaction_id job1)] \<and>
         log (snd (snd (push_project_finalize e job w))) =
           log w1 @
           [(INFO, ''Finishing transaction '' @ str_opt (transaction_id job1)),
            (ERROR, ''--- push finish failed! '' @ err),
            (INFO, ''canceling the pending transaction...''),
            (INFO, ''cancel response: '' @
               (case post_cancel e (requests w1 @ [PostFinish (transaction_id job1)])
                       (transaction_id job1) of
                  Inl err2 \<Rightarrow> err2 | Inr msg \<Rightarrow> msg))]"
proof -
  from assms(1) obtain n where n: "executor job = Some n" by auto
  have d: "executor_shutdown_wait e job w = (job1, w1)"
    using assms(2) n by (simp add: drained_def)
  have fin: "push_project_finalize e job w = finalize_finish e job1 w1"
    using n d assms(3,4) by (simp add: push_project_finalize_def finalize_check_size_def)
  show ?thesis
  proof (cases "post_cancel e (requests w1 @ [PostFinish (transaction_id job1)])
                  (transaction_id job1)")
    case (Inl err2)
    with assms(5) show ?thesis
      unfolding fin
      by (simp add: finalize_finish_def Let_def mc_post_finish_def mc_post_cancel_def sent_def
            log_line_def)
  next
    case (Inr msg)
    with assms(5) show ?thesis
      unfolding fin
      by (simp add: finalize_finish_def Let_def mc_post_finish_def mc_post_cancel_def sent_def
            log_line_def)
  qed
qed

theorem finalize_finish_failure_witness:
  "fst (push_project_finalize
          (demo_env no_changes honest_ack (Inl ''finish failed'') (Inl ''cancel failed''))
          (demo_job (Done None)\<lparr>transferred_size := 5\<rparr>) demo_world) =
     Raises (ClientError ''finish failed'') \<and>
   requests (snd (snd (push_project_finalize
          (demo_env no_changes honest_ack (Inl ''finish failed'') (Inl ''cancel failed''))
          (demo_job (Done None)\<lparr>transferred_size := 5\<rparr>) demo_world))) =
     [PostFinish (Some ''t1''), PostCancel (Some ''t1'')] \<and>
   log (snd (snd (push_project_finalize
          (demo_env no_changes honest_ack (Inl ''finish failed'') (Inl ''cancel failed''))
          (demo_job (Done None)\<lparr>transferred_size := 5\<rparr>) demo_world))) =
     [(INFO, ''Finishing transaction t1''),
      (ERROR, ''--- push finish failed! finish failed''),
      (INFO, ''canceling the pending transaction...''),
      (INFO, ''cancel response: cancel failed'')]"
proof -
  let ?E = "demo_env no_changes honest_ack (Inl ''finish failed'') (Inl ''cancel failed'')"
  let ?J = "demo_job (Done None)\<lparr>transferred_size := 5\<rparr>"
  have h0: "executor ?J \<noteq> None"
    by (simp add: demo_job_def UploadJob_def)
  have h1: "drained ?E ?J demo_world = (?J, demo_world)"
    by (rule demo_job_drained)
  have h2: "first_exception (map snd (futures ?J)) = Returns None"
    by (simp add: demo_job_def UploadJob_def future_exception_def)
  have h3: "transferred_size ?J = total_size ?J"
    by (simp add: demo_job_def UploadJob_def)
  have h4: "post_finish ?E (requests demo_world) (transaction_id ?J) = Inl ''finish failed''"
    by (simp add: demo_env_def)
  have t: "transaction_id ?J = Some ''t1''"
    by (simp add: demo_job_def UploadJob_def)
  have c: "post_cancel ?E (requests demo_world @ [PostFinish (Some ''t1'')]) (Some ''t1'') =
             Inl ''cancel failed''"
    by (simp add: demo_env_def)
  from finalize_finish_failure [OF h0 h1 h2 h3 h4] show ?thesis
    unfolding t c by (simp add: demo_world_def str_opt_def)
qed


section \<open>Polling the job\<close>

lemmas is_running_loop_unfold = future_done_def future_running_def future_exception_def

lemma is_running_loop_never_blocks: "fst (is_running_loop fs w) \<noteq> Blocks"
  by (induction fs) (simp_all add: is_running_loop_unfold split: future.split option.split)

lemma is_running_fst:
  "fst (push_project_is_running job w) = fst (is_running_loop (map snd (futures job)) w)"
  by (simp add: push_project_is_running_def split: prod.split)

lemma is_running_job: "fst (snd (push_project_is_running job w)) = job"
  by (simp add: push_project_is_running_def split: prod.split)

text \<open>
  \<open>push_project_is_running\<close> never blocks: it asks a future for its exception only when the
  future is done.
\<close>

theorem is_running_never_blocks: "fst (push_project_is_running job w) \<noteq> Blocks"
  unfolding is_running_fst by (rule is_running_loop_never_blocks)

lemma is_running_loop_fst_world:
  "fst (is_running_loop fs w) = fst (is_running_loop fs w')"
  by (induction fs) (simp_all add: is_running_loop_unfold split: future.split option.split)

text \<open>
  C6, amended: calling \<open>push_project_is_running\<close> again and again leaves the job as it is,
  and every call has the outcome of the first; so the error of a failed task is raised by
  every call, not once.
\<close>

theorem is_running_repeated:
  "fst (is_running_calls n job w) = replicate n (fst (push_project_is_running job w)) \<and>
   fst (snd (is_running_calls n job w)) = job"
proof (induction n arbitrary: w)
  case 0
  show ?case by simp
next
  case (Suc n)
  obtain r w' where c: "is_running_loop (map snd (futures job)) w = (r, w')"
    by (cases "is_running_loop (map snd (futures job)) w")
  have one: "push_project_is_running job w = (r, job, w')"
    by (simp add: push_project_is_running_def c)
  obtain rs j w'' where rest: "is_running_calls n job w' = (rs, j, w'')"
    by (cases "is_running_calls n job w'") auto
  from Suc.IH [of w'] rest
  have rs: "rs = replicate n (fst (push_project_is_running job w'))" and j: "j = job" by simp_all
  have "fst (push_project_is_running job w') = r"
    using is_running_loop_fst_world [of "map snd (futures job)" w' w] c
    by (simp add: is_running_fst)
  with rs j one rest show ?case by simp
qed

theorem is_running_repeated_witness:
  "fst (is_running_calls 3 (demo_job Running) demo_world) =
     [Returns True, Returns True, Returns True] \<and>
   fst (snd (is_running_calls 3 (demo_job Running) demo_world)) = demo_job Running"
proof -
  have "fst (push_project_is_running (demo_job Running) demo_world) = Returns True"
    by (simp add: is_running_fst demo_job_def UploadJob_def is_running_loop_unfold)
  with is_running_repeated [of 3 "demo_job Running" demo_world] show ?thesis
    by (simp add: numeral_3_eq_3)
qed

text \<open>
  C6, as stated, fails: on a job whose tasks are not all complete, two calls raise the error
  of the same failed task twice.
\<close>

theorem is_running_raises_again:
  "fst (is_running_calls 2 failed_job demo_world) =
     [Raises (ClientError ''connection lost''), Raises (ClientError ''connection lost'')] \<and>
   snd (futures failed_job ! 1) = Running"
  by (simp add: numeral_2_eq_2 failed_job_def demo_job_def UploadJob_def
        push_project_is_running_def is_running_loop_unfold)


section \<open>The empty change set\<close>

lemmas push_stages =
  push_project_async_def check_project_def collect_changes_def open_transaction_def
  mc_project_info_def mc_enough_storage_available_def mc_post_push_def
  log_line_def sent_def Let_def changes_values_def str_opt_def

lemmas finalize_stages =
  push_project_finalize_def finalize_check_size_def finalize_apply_def finalize_finish_def
  mc_post_finish_def mc_post_cancel_def

lemmas demo_defs =
  demo_env_def demo_world_def demo_info_def demo_file_def no_changes_def

text \<open>
  C4, as stated, fails: a change set with no added, no updated and no removed file, but a
  renamed one, is not empty for \<open>push_project_async\<close>; the transaction is opened and the
  push is finalized at once.
\<close>

theorem renamed_only_opens_transaction:
  "added renamed_only = [] \<and> updated renamed_only = [] \<and> removed renamed_only = [] \<and>
   fst (push_project_async (demo_env renamed_only honest_ack (Inl ''no'') (Inl ''no'')) demo_world) =
     Returns None \<and>
   requests (snd (push_project_async (demo_env renamed_only honest_ack (Inl ''no'') (Inl ''no''))
                    demo_world)) =
     [GetProjectInfo ''alice/proj'', GetStorage renamed_only,
      PostPush ''alice/proj'' (Some ''v1'') renamed_only] \<and>
   last (log (snd (push_project_async (demo_env renamed_only honest_ack (Inl ''no'') (Inl ''no''))
                    demo_world))) =
     (INFO, ''--- push finished - new project version v1'')"
  by (simp add: push_stages finalize_stages start_upload_def UploadJob_def demo_defs
        renamed_only_def)


text \<open>
  C4, amended: when the checks of the project have passed and every collection of the
  change set (added, updated, removed, renamed) is empty, \<open>push_project_async\<close> returns a
  null job; it has asked for the project information (and the storage, for the owner) and
  sent nothing else, so no transaction is opened and no chunk is uploaded; the metadata of
  the project are untouched, so nothing was finalized.
\<close>

theorem empty_change_set_null_job:
  assumes "\<not> has_unfinished_pull e"
    and "project_info e (requests w) (md_name (metadata w)) = Inr server_info"
    and "username e \<in> set (writersnames server_info)"
    and "md_version (metadata w) =
           Some (case version server_info of None \<Rightarrow> ''v0''
                 | Some v \<Rightarrow> if v = [] then ''v0'' else v)"
    and "username e = takeWhile (\<lambda>c. c \<noteq> CHR ''/'') (md_name (metadata w)) \<longrightarrow>
           enough_storage_available e (requests w @ [GetProjectInfo (md_name (metadata w))])
             (get_push_changes e) = Inr (True, freespace)"
    and "added (get_push_changes e) = []" and "updated (get_push_changes e) = []"
    and "removed (get_push_changes e) = []" and "renamed (get_push_changes e) = []"
  shows "fst (push_project_async e w) = Returns None \<and>
         requests (snd (push_project_async e w)) =
           requests w @ GetProjectInfo (md_name (metadata w)) #
             (if username e = takeWhile (\<lambda>c. c \<noteq> CHR ''/'') (md_name (metadata w))
              then [GetStorage (get_push_changes e)] else []) \<and>
         metadata (snd (push_project_async e w)) = metadata w"
proof -
  let ?pp = "md_name (metadata w)"
  let ?ch = "get_push_changes e"
  have empty: "sum_list (map length (changes_values ?ch)) = 0"
    using assms(6-9) by (simp add: changes_values_def)
  have ot: "open_transaction e ?pp lv ?ch tmp w' =
              (Returns None, log_line INFO (''--- push '' @ ?pp @ '' - nothing to do'') w')"
    for lv tmp w'
    unfolding open_transaction_def by (simp only: empty simp_thms if_True)
  have ch: "?ch\<lparr>updated := map f (updated ?ch)\<rparr> = ?ch"
           "?ch\<lparr>added := map g (added ?ch)\<rparr> = ?ch" for f g
    using assms(6,7) by simp_all
  show ?thesis
  proof (cases "username e = takeWhile (\<lambda>c. c \<noteq> CHR ''/'') ?pp")
    case True
    with assms(1-5) show ?thesis
      by (simp add: push_project_async_def check_project_def collect_changes_def ch ot
            mc_project_info_def mc_enough_storage_available_def log_line_def sent_def Let_def)
  next
    case False
    with assms(1-5) show ?thesis
      by (simp add: push_project_async_def check_project_def collect_changes_def ch ot
            mc_project_info_def mc_enough_storage_available_def log_line_def sent_def Let_def)
  qed
qed

theorem empty_change_set_null_job_witness:
  "fst (push_project_async (demo_env no_changes honest_ack (Inl ''no'') (Inl ''no'')) demo_world) =
     Returns None \<and>
   requests (snd (push_project_async (demo_env no_changes honest_ack (Inl ''no'') (Inl ''no''))
                    demo_world)) =
     [GetProjectInfo ''alice/proj'', GetStorage no_changes]"
proof -
  let ?E = "demo_env no_changes honest_ack (Inl ''no'') (Inl ''no'')"
  have h1: "\<not> has_unfinished_pull ?E" by (simp add: demo_env_def)
  have h2: "project_info ?E (requests demo_world) (md_name (metadata demo_world)) =
              Inr (demo_info ''v1'')"
    by (simp add: demo_env_def)
  have h3: "username ?E \<in> set (writersnames (demo_info ''v1''))"
    by (simp add: demo_env_def demo_info_def)
  have h4: "md_version (metadata demo_world) =
              Some (case version (demo_info ''v1'') of None \<Rightarrow> ''v0''
                    | Some v \<Rightarrow> if v = [] then ''v0'' else v)"
    by (simp add: demo_world_def demo_info_def)
  have h5: "username ?E = takeWhile (\<lambda>c. c \<noteq> CHR ''/'') (md_name (metadata demo_world)) \<longrightarrow>
              enough_storage_available ?E
                (requests demo_world @ [GetProjectInfo (md_name (metadata demo_world))])
                (get_push_changes ?E) = Inr (True, 1000000)"
    by (simp add: demo_env_def)
  have h6: "added (get_push_changes ?E) = []" "updated (get_push_changes ?E) = []"
           "removed (get_push_changes ?E) = []" "renamed (get_push_changes ?E) = []"
    by (simp_all add: demo_env_def no_changes_def)
  have own: "username ?E = takeWhile (\<lambda>c. c \<noteq> CHR ''/'') (md_name (metadata demo_world))"
    by (simp add: demo_env_def demo_world_def)
  have g: "get_push_changes ?E = no_changes" by (simp add: demo_env_def)
  from empty_change_set_null_job [OF h1 h2 h3 h4 h5 h6] own show ?thesis
    by (simp add: g demo_world_def)
qed

section \<open>Queued tasks\<close>

text \<open>
  C5 does not hold of the code: the job that \<open>push_project_async\<close> returns for one added
  file has its task queued, not yet taken by a worker, so the task is in flight; and
  \<open>push_project_is_running\<close> returns false. The loop asks \<open>future.running()\<close>, which a queued
  future denies, where the docstring speaks of pending uploads.
\<close>

theorem is_running_misses_queued:
  "(case push_project_async (demo_env one_added honest_ack (Inl ''no'') (Inl ''no''))
           demo_world of
      (Returns (Some job), w) \<Rightarrow>
        map snd (futures job) = [Pending] \<and>
        fst (push_project_is_running job w) = Returns False
    | _ \<Rightarrow> False)"
  by (simp add: push_stages start_upload_def UploadJob_def demo_defs one_added_def
        push_project_is_running_def is_running_loop_unfold file_chunks_def upload_source_def
        file_size_def UploadQueueItem_def UPLOAD_CHUNK_SIZE_def)

section \<open>The temporary directory\<close>

text \<open>
  C8 does not hold of the code: after a push is started for one added file and cancelled,
  the cancel request accepted, the temporary directory of the job still exists. Only the
  last lines of a successful \<open>push_project_finalize\<close> remove it.
\<close>

theorem cancel_keeps_tmp_dir:
  "(case push_project_async (demo_env one_added honest_ack (Inl ''no'') (Inr ''cancelled''))
           demo_world of
      (Returns (Some job), w) \<Rightarrow>
        live_tmp_dirs w = [tmp_dir job] \<and>
        fst (push_project_cancel (demo_env one_added honest_ack (Inl ''no'') (Inr ''cancelled''))
               job w) = Returns () \<and>
        live_tmp_dirs (snd (snd (push_project_cancel
               (demo_env one_added honest_ack (Inl ''no'') (Inr ''cancelled'')) job w))) =
          [tmp_dir job]
    | _ \<Rightarrow> False)"
  by (simp add: push_stages start_upload_def UploadJob_def demo_defs one_added_def
        push_project_cancel_def executor_shutdown_wait_def run_task_def do_upload_def
        upload_and_count_def finish_task_def future_result_def mc_post_cancel_def file_chunks_def upload_source_def file_size_def
        UploadQueueItem_def UPLOAD_CHUNK_SIZE_def)


section \<open>Accounting of the transferred bytes\<close>

lemma upload_and_count_job:
  "fst (snd (upload_and_count e item job w)) =
     job\<lparr>transferred_size := transferred_size job +
           (if \<exists>u. fst (upload_blocking e item w) = Inr u then item_size item else 0)\<rparr>"
proof (cases "upload_blocking e item w")
  case (Pair r w')
  thus ?thesis by (cases r) (simp_all add: upload_and_count_def)
qed

lemma first_pending_Some:
  assumes "first_pending fs = Some k"
  shows "k < length fs \<and> snd (fs ! k) = Pending"
proof (cases "filter (\<lambda>k. snd (fs ! k) = Pending) [0..<length fs]")
  case Nil
  with assms show ?thesis by (simp add: first_pending_def)
next
  case (Cons k' ks)
  with assms have "k' = k" by (simp add: first_pending_def)
  with Cons have "k \<in> set (filter (\<lambda>k. snd (fs ! k) = Pending) [0..<length fs])" by simp
  thus ?thesis by simp
qed

lemma next_task_Some:
  assumes "next_task job = Some k"
  shows "k < length (futures job) \<and> snd (futures job ! k) = Pending"
  using assms first_pending_Some [of "futures job" k]
  by (auto simp: next_task_def split: option.splits if_splits)

lemma map_fst_update_same:
  "k < length fs \<Longrightarrow> map fst (fs[k := (fst (fs ! k), x)]) = map fst fs"
  by (simp add: map_update list_update_same_conv)

lemma begin_task_props:
  assumes "k < length (futures job)"
  shows "map fst (futures (begin_task k job)) = map fst (futures job) \<and>
         total_size (begin_task k job) = total_size job \<and>
         transferred_size (begin_task k job) = transferred_size job \<and>
         snd (futures (begin_task k job) ! k) = (if is_cancelled job then Done None else Running) \<and>
         (\<forall>j. j \<noteq> k \<longrightarrow> futures (begin_task k job) ! j = futures job ! j)"
  using assms by (simp add: begin_task_def map_fst_update_same)

lemma finish_task_props:
  assumes "i < length (futures job)"
  shows "map fst (futures (fst (finish_task e i (job, w)))) = map fst (futures job) \<and>
         total_size (fst (finish_task e i (job, w))) = total_size job \<and>
         transferred_size (fst (finish_task e i (job, w))) =
           transferred_size job +
             (if task_result_at e i (job, w) = Uploaded then item_size (fst (futures job ! i))
              else 0) \<and>
         future_done (snd (futures (fst (finish_task e i (job, w))) ! i)) \<and>
         (\<forall>j. j \<noteq> i \<longrightarrow> futures (fst (finish_task e i (job, w))) ! j = futures job ! j)"
proof -
  let ?item = "fst (futures job ! i)"
  obtain r job' w' where d: "upload_and_count e ?item job w = (r, job', w')"
    by (cases "upload_and_count e ?item job w")
  from upload_and_count_job [of e ?item job w] d
  have j: "futures job' = futures job" "total_size job' = total_size job"
    "transferred_size job' = transferred_size job +
           (if \<exists>u. fst (upload_blocking e ?item w) = Inr u then item_size ?item else 0)"
    by simp_all
  have res: "task_result_at e i (job, w) = Uploaded \<longleftrightarrow>
               (\<exists>u. fst (upload_blocking e ?item w) = Inr u)"
    by (simp add: task_result_at_def split: sum.split)
  have run: "fst (finish_task e i (job, w)) =
               job'\<lparr>futures := (futures job')[i := (?item, future_result r)]\<rparr>"
    using d by (simp add: finish_task_def)
  have dn: "future_done (future_result r)"
    by (cases r) (simp_all add: future_result_def future_done_def)
  show ?thesis
    unfolding run using assms j res dn by (simp add: map_fst_update_same)
qed

lemma step_props:
  "map fst (futures (fst (step e ev s))) = map fst (futures (fst s)) \<and>
   total_size (fst (step e ev s)) = total_size (fst s) \<and>
   (\<forall>k < length (futures (fst s)). future_done (snd (futures (fst s) ! k)) \<longrightarrow>
      futures (fst (step e ev s)) ! k = futures (fst s) ! k)"
proof (cases s)
  case (Pair job w)
  show ?thesis
  proof (cases ev)
    case Start
    show ?thesis
    proof (cases "next_task job")
      case None
      with Pair Start show ?thesis by (simp add: step_def)
    next
      case (Some k)
      note nt = next_task_Some [OF Some]
      note bt = begin_task_props [of k job]
      have kept: "futures (begin_task k job) ! j = futures job ! j"
        if "future_done (snd (futures job ! j))" for j
      proof -
        from that nt have "j \<noteq> k" by (auto simp: future_done_def)
        with bt nt show ?thesis by simp
      qed
      from Pair Start Some bt nt kept show ?thesis
        by (simp add: step_def)
    qed
  next
    case (Finish i)
    show ?thesis
    proof (cases "i < length (futures job) \<and> snd (futures job ! i) = Running")
      case False
      with Pair Finish show ?thesis by (auto simp: step_def)
    next
      case True
      note ft = finish_task_props [of i job e w]
      have kept: "futures (fst (finish_task e i (job, w))) ! j = futures job ! j"
        if "future_done (snd (futures job ! j))" for j
      proof -
        from that True have "j \<noteq> i" by (auto simp: future_done_def)
        with ft True show ?thesis by simp
      qed
      from Pair Finish True ft kept show ?thesis
        by (simp add: step_def)
    qed
  next
    case SetCancelled
    with Pair show ?thesis by (simp add: step_def)
  qed
qed

lemma step_length:
  "length (futures (fst (step e ev s))) = length (futures (fst s))"
  using step_props [of e ev s] by (metis length_map)

lemma step_idle:
  assumes "completion e ev s = None"
  shows "transferred_size (fst (step e ev s)) = transferred_size (fst s)"
proof (cases s)
  case (Pair job w)
  show ?thesis
  proof (cases ev)
    case Start
    show ?thesis
    proof (cases "next_task job")
      case None
      with Pair Start show ?thesis by (simp add: step_def)
    next
      case (Some k)
      from next_task_Some [OF Some] begin_task_props [of k job] Pair Start Some
      show ?thesis by (simp add: step_def)
    qed
  next
    case (Finish i)
    with Pair assms show ?thesis
      by (auto simp: step_def completion_def split: if_splits)
  next
    case SetCancelled
    with Pair show ?thesis by (simp add: step_def)
  qed
qed

lemma step_completes:
  assumes "completion e ev s = Some (i, r)"
  shows "i < length (futures (fst s)) \<and> \<not> future_done (snd (futures (fst s) ! i)) \<and>
         future_done (snd (futures (fst (step e ev s)) ! i)) \<and>
         transferred_size (fst (step e ev s)) =
           transferred_size (fst s) +
             (if r = Uploaded then item_size (fst (futures (fst s) ! i)) else 0)"
proof (cases s)
  case (Pair job w)
  show ?thesis
  proof (cases ev)
    case Start
    from assms Pair Start have nt: "next_task job = Some i" and c: "is_cancelled job"
      and r: "r = Skipped"
      by (auto simp: completion_def split: option.splits if_splits)
    from next_task_Some [OF nt] begin_task_props [of i job] Pair Start nt c r
    show ?thesis by (simp add: step_def future_done_def)
  next
    case (Finish k)
    from assms Pair Finish have k: "k = i" and i: "i < length (futures job)"
      and run: "snd (futures job ! i) = Running" and r: "r = task_result_at e i (job, w)"
      by (auto simp: completion_def split: if_splits)
    from finish_task_props [OF i, of e w] Pair Finish k i run r
    show ?thesis by (simp add: step_def future_done_def)
  next
    case SetCancelled
    with assms show ?thesis by (simp add: completion_def)
  qed
qed

text \<open>
  The two steps of a task are \<open>_do_upload\<close>: a queued task that is run to its end is taken
  and, unless the flag was set, its upload ends.
\<close>

lemma do_upload_in_two_steps:
  assumes "i < length (futures job)" and "snd (futures job ! i) = Pending"
  shows "run_task e i (job, w) =
           (if is_cancelled job then (begin_task i job, w)
            else finish_task e i (begin_task i job, w))"
proof (cases "upload_blocking e (fst (futures job ! i)) w")
  case (Pair r w')
  with assms show ?thesis
    by (cases r)
      (simp_all add: run_task_def do_upload_def upload_and_count_def begin_task_def
         finish_task_def future_result_def)
qed

text \<open>
  A task that is executing when the job is cancelled is not skipped: its chunk is uploaded
  and counted before the cancel request is sent.
\<close>

lemma cancel_finishes_executing_task:
  "transferred_size (fst (snd (push_project_cancel
      (demo_env one_added honest_ack (Inl ''no'') (Inr ''cancelled''))
      (demo_job Running) demo_world))) = 5 \<and>
   requests (snd (snd (push_project_cancel
      (demo_env one_added honest_ack (Inl ''no'') (Inr ''cancelled''))
      (demo_job Running) demo_world))) =
     [PostChunk (Some ''t1'') ''c1'' [1, 2, 3, 4, 5], PostCancel (Some ''t1'')]"
  by (simp add: push_project_cancel_def executor_shutdown_wait_def run_task_def
        finish_task_def upload_and_count_def upload_blocking_def mc_post_chunk_def
        mc_post_cancel_def honest_ack_def demo_env_def demo_job_def demo_item_def
        demo_world_def UploadJob_def UploadQueueItem_def chunk_data_def UPLOAD_CHUNK_SIZE_def
        future_result_def log_line_def sent_def Let_def)

lemma uploaded_size_Cons:
  "uploaded_size fs ((i, r) # cs) =
     (if r = Uploaded then item_size (fst (fs ! i)) else 0) + uploaded_size fs cs"
  by (simp add: uploaded_size_def)

lemma uploaded_size_cong:
  assumes "map fst fs = map fst fs'" and "\<forall>i \<in> set (map fst cs). i < length fs"
  shows "uploaded_size fs cs = uploaded_size fs' cs"
proof -
  have len: "length fs = length fs'" using assms(1) by (metis length_map)
  have "fst (fs ! i) = fst (fs' ! i)" if "i < length fs" for i
  proof -
    have "fst (fs ! i) = map fst fs ! i" using that by simp
    also have "\<dots> = map fst fs' ! i" by (simp only: assms(1))
    also have "\<dots> = fst (fs' ! i)" using that len by simp
    finally show ?thesis .
  qed
  hence "item_size (fst (fs ! fst c)) = item_size (fst (fs' ! fst c))" if "c \<in> set cs" for c
    using that assms(2) by auto
  thus ?thesis unfolding uploaded_size_def by (intro arg_cong [where f = sum_list] map_cong) auto
qed

lemma run_events_accounting:
  "transferred_size (fst (run_events e evs s)) =
     transferred_size (fst s) + uploaded_size (futures (fst s)) (completions e evs s) \<and>
   distinct (map fst (completions e evs s)) \<and>
   (\<forall>i \<in> set (map fst (completions e evs s)).
      i < length (futures (fst s)) \<and> \<not> future_done (snd (futures (fst s) ! i))) \<and>
   total_size (fst (run_events e evs s)) = total_size (fst s)"
proof (induction evs arbitrary: s)
  case Nil
  show ?case by (simp add: uploaded_size_def)
next
  case (Cons ev evs)
  let ?s1 = "step e ev s"
  let ?cs1 = "completions e evs ?s1"
  note IH = Cons.IH [of ?s1]
  note sp = step_props [of e ev s]
  have len: "length (futures (fst ?s1)) = length (futures (fst s))" by (rule step_length)
  have bound1: "\<forall>i \<in> set (map fst ?cs1). i < length (futures (fst s))"
    using IH len by simp
  have notdone1: "\<forall>i \<in> set (map fst ?cs1). \<not> future_done (snd (futures (fst s) ! i))"
  proof
    fix i assume i: "i \<in> set (map fst ?cs1)"
    with IH have a: "i < length (futures (fst s))"
      and b: "\<not> future_done (snd (futures (fst ?s1) ! i))" using len by auto
    show "\<not> future_done (snd (futures (fst s) ! i))"
    proof
      assume "future_done (snd (futures (fst s) ! i))"
      with sp a have "futures (fst ?s1) ! i = futures (fst s) ! i" by blast
      with b \<open>future_done (snd (futures (fst s) ! i))\<close> show False by simp
    qed
  qed
  have up1: "uploaded_size (futures (fst ?s1)) ?cs1 = uploaded_size (futures (fst s)) ?cs1"
    using sp IH by (intro uploaded_size_cong) auto
  have tot: "total_size (fst (run_events e (ev # evs) s)) = total_size (fst s)"
    using IH sp by simp
  show ?case
  proof (cases "completion e ev s")
    case (Some c)
    obtain i r where c: "c = (i, r)" by (cases c)
    have cs: "completions e (ev # evs) s = (i, r) # ?cs1"
      using Some c by simp
    note fin = step_completes [OF Some [unfolded c]]
    have fresh: "i \<notin> set (map fst ?cs1)"
    proof
      assume "i \<in> set (map fst ?cs1)"
      with IH have "\<not> future_done (snd (futures (fst ?s1) ! i))" by blast
      with fin show False by simp
    qed
    have tr: "transferred_size (fst (run_events e (ev # evs) s)) =
                transferred_size (fst s) +
                  uploaded_size (futures (fst s)) (completions e (ev # evs) s)"
      unfolding cs uploaded_size_Cons using IH fin up1 by simp
    from tr fresh IH bound1 notdone1 fin tot show ?thesis
      unfolding cs by simp
  next
    case None
    have cs: "completions e (ev # evs) s = ?cs1"
      using None by simp
    have "transferred_size (fst ?s1) = transferred_size (fst s)"
      using None by (rule step_idle)
    with IH up1 have tr: "transferred_size (fst (run_events e (ev # evs) s)) =
                transferred_size (fst s) +
                  uploaded_size (futures (fst s)) (completions e (ev # evs) s)"
      unfolding cs by simp
    from tr IH bound1 notdone1 tot show ?thesis
      unfolding cs by simp
  qed
qed

lemma sum_subset_positive:
  fixes f :: "nat \<Rightarrow> int"
  assumes "A \<subseteq> {..<n}" and "\<forall>i < n. 0 < f i"
  shows "sum f A \<le> sum f {..<n} \<and> (sum f A = sum f {..<n} \<longleftrightarrow> A = {..<n})"
proof -
  have fin: "finite {..<n}" by simp
  have split: "sum f {..<n} = sum f ({..<n} - A) + sum f A"
    using assms(1) by (simp add: sum.subset_diff)
  have nonneg: "0 \<le> sum f ({..<n} - A)"
    using assms(2) by (intro sum_nonneg) (auto intro: less_imp_le)
  have strict: "0 < sum f ({..<n} - A)" if "A \<noteq> {..<n}"
  proof -
    from that assms(1) have "{..<n} - A \<noteq> {}" by auto
    moreover have "finite ({..<n} - A)" by simp
    moreover have "\<forall>i \<in> {..<n} - A. 0 < f i" using assms(2) by auto
    ultimately show ?thesis by (intro sum_pos) auto
  qed
  show ?thesis
  proof (cases "A = {..<n}")
    case True
    thus ?thesis by simp
  next
    case False
    with strict split show ?thesis by simp
  qed
qed

text \<open>
  C10: a job starts with \<open>transferred_size\<close> zero. In every sequential execution of its
  tasks, whatever the order of the events, \<open>transferred_size\<close> is the sum of the sizes of
  the tasks that were uploaded, each task completing at most once (a skipped or failed task
  adds nothing); \<open>total_size\<close> stays as planned; so, the files being well formed,
  \<open>transferred_size\<close> never exceeds \<open>total_size\<close> and equals it exactly when every task was
  uploaded.
\<close>

theorem transferred_size_accounting:
  assumes "start_upload e pp ch tmp resp w = (Returns (Some job), w0)"
    and "\<forall>f \<in> set (added ch @ updated ch). chunks_well_formed e f"
  shows "transferred_size job = 0 \<and>
         transferred_size (fst (run_events e evs (job, w1))) =
           uploaded_size (futures job) (completions e evs (job, w1)) \<and>
         distinct (map fst (completions e evs (job, w1))) \<and>
         total_size (fst (run_events e evs (job, w1))) = total_size job \<and>
         transferred_size (fst (run_events e evs (job, w1))) \<le>
           total_size (fst (run_events e evs (job, w1))) \<and>
         (transferred_size (fst (run_events e evs (job, w1))) =
            total_size (fst (run_events e evs (job, w1))) \<longleftrightarrow>
          (\<forall>i < length (upload_queue_items job).
             (i, Uploaded) \<in> set (completions e evs (job, w1))))"
proof -
  let ?items = "upload_queue_items job"
  let ?n = "length ?items"
  let ?cs = "completions e evs (job, w1)"
  let ?U = "map fst (filter (\<lambda>c. snd c = Uploaded) ?cs)"
  let ?f = "\<lambda>i. item_size (?items ! i)"
  note j = start_upload_job [OF assms(1)]
  note acc = run_events_accounting [of e evs "(job, w1)"]
  have fs: "futures job = map (\<lambda>item. (item, Pending)) ?items" using j by simp
  have len: "length (futures job) = ?n" unfolding fs by simp
  have nth: "fst (futures job ! i) = ?items ! i" if "i < ?n" for i
    unfolding fs using that by simp
  have zero: "transferred_size job = 0" using j by simp
  have pos: "\<forall>i < ?n. 0 < ?f i"
  proof (intro allI impI)
    fix i assume "i < ?n"
    hence "?items ! i \<in> set ?items" by simp
    then obtain f where "f \<in> set (added ch @ updated ch)"
      and "?items ! i \<in> set (file_chunks e (transaction_id job) f)"
      using j by auto
    with assms(2) file_chunks_positive show "0 < ?f i" by blast
  qed
  have total: "total_size job = sum ?f {..<?n}"
  proof -
    have "total_size job = sum_list (map item_size ?items)"
      using j plan_sum [OF assms(2)] by simp
    also have "\<dots> = (\<Sum>i = 0..<?n. ?f i)"
      by (simp add: sum_list_sum_nth)
    finally show ?thesis by (simp add: lessThan_atLeast0)
  qed
  have dU: "distinct ?U" using acc by (simp add: distinct_map_filter)
  have subU: "set ?U \<subseteq> {..<?n}" using acc len by auto
  have memU: "i \<in> set ?U \<longleftrightarrow> (i, Uploaded) \<in> set ?cs" for i by force
  have "uploaded_size (futures job) ?cs = sum_list (map (\<lambda>i. item_size (fst (futures job ! i))) ?U)"
    by (simp add: uploaded_size_def comp_def)
  also have "\<dots> = sum_list (map ?f ?U)"
    using subU nth by (intro arg_cong [where f = sum_list] map_cong) auto
  also have "\<dots> = sum ?f (set ?U)"
    using dU by (rule sum_list_distinct_conv_sum_set)
  finally have up: "uploaded_size (futures job) ?cs = sum ?f (set ?U)" .
  have tr: "transferred_size (fst (run_events e evs (job, w1))) = sum ?f (set ?U)"
    using acc zero up by simp
  have tt: "total_size (fst (run_events e evs (job, w1))) = sum ?f {..<?n}"
    using acc total by simp
  note cmp = sum_subset_positive [OF subU pos]
  have all: "set ?U = {..<?n} \<longleftrightarrow> (\<forall>i < ?n. (i, Uploaded) \<in> set ?cs)"
    using subU memU by auto
  have 1: "transferred_size (fst (run_events e evs (job, w1))) =
             uploaded_size (futures job) ?cs" using tr up by simp
  have 2: "distinct (map fst ?cs)" using acc by simp
  have 3: "total_size (fst (run_events e evs (job, w1))) = total_size job" using acc by simp
  have 4: "transferred_size (fst (run_events e evs (job, w1))) \<le>
             total_size (fst (run_events e evs (job, w1)))"
    unfolding tr tt using cmp by simp
  have 5: "transferred_size (fst (run_events e evs (job, w1))) =
             total_size (fst (run_events e evs (job, w1))) \<longleftrightarrow>
           (\<forall>i < ?n. (i, Uploaded) \<in> set ?cs)"
    unfolding tr tt using cmp all by simp
  from zero 1 2 3 4 5 show ?thesis by blast
qed


lemmas run_demo =
  step_def completion_def next_task_def first_pending_def running_count_def begin_task_def
  finish_task_def upload_and_count_def upload_blocking_def mc_post_chunk_def
  honest_ack_def demo_env_def chunk_data_def UPLOAD_CHUNK_SIZE_def task_result_at_def Let_def
  log_line_def sent_def file_chunks_def upload_source_def file_size_def UploadQueueItem_def
  UploadJob_def one_added_def no_changes_def demo_file_def demo_info_def future_result_def

theorem transferred_size_accounting_witness:
  "chunks_well_formed (demo_env one_added honest_ack (Inl ''no'') (Inl ''no''))
     (demo_file ''a.txt'' 5 [''c1'']) \<and>
   (case start_upload (demo_env one_added honest_ack (Inl ''no'') (Inl ''no''))
           ''alice/proj'' one_added ''tmp'' (demo_info ''v1'') demo_world of
      (Returns (Some job), w0) \<Rightarrow>
        total_size job = 5 \<and>
        completions (demo_env one_added honest_ack (Inl ''no'') (Inl ''no''))
          [Start, Finish 0] (job, w0) = [(0, Uploaded)] \<and>
        transferred_size (fst (run_events (demo_env one_added honest_ack (Inl ''no'') (Inl ''no''))
          [Start, Finish 0] (job, w0))) = 5 \<and>
        completions (demo_env one_added honest_ack (Inl ''no'') (Inl ''no''))
          [SetCancelled, Start, Finish 0] (job, w0) = [(0, Skipped)] \<and>
        transferred_size (fst (run_events (demo_env one_added honest_ack (Inl ''no'') (Inl ''no''))
          [SetCancelled, Start, Finish 0] (job, w0))) = 0
    | _ \<Rightarrow> False)"
proof -
  let ?E = "demo_env one_added honest_ack (Inl ''no'') (Inl ''no'')"
  have ne: "added one_added @ updated one_added \<noteq> []"
    by (simp add: one_added_def no_changes_def)
  note run = start_upload_nonempty [OF ne, of ?E "''alice/proj''" "''tmp''" "demo_info ''v1''" demo_world]
  have wf1: "chunks_well_formed ?E (demo_file ''a.txt'' 5 [''c1''])"
    by (simp add: chunks_well_formed_div file_size_def upload_source_def demo_file_def
          UPLOAD_CHUNK_SIZE_def)
  hence wf: "\<forall>f \<in> set (added one_added @ updated one_added). chunks_well_formed ?E f"
    by (simp add: one_added_def no_changes_def)
  note acc1 = transferred_size_accounting [OF run wf, of "[Start, Finish 0]"]
  note acc2 = transferred_size_accounting [OF run wf, of "[SetCancelled, Start, Finish 0]"]
  show ?thesis
    unfolding run
    using wf1 acc1 [of "log_line INFO
        (''will upload ''
           @ str_nat (length (concat (map (file_chunks ?E (Some (transaction (demo_info ''v1''))))
                                  (added one_added @ updated one_added))))
           @ '' items with total size ''
           @ str_int (sum_list (map (file_size ?E) (added one_added @ updated one_added))))
        (log_line INFO (''got transaction ID '' @ transaction (demo_info ''v1'')) demo_world)"]
      acc2 [of "log_line INFO
        (''will upload ''
           @ str_nat (length (concat (map (file_chunks ?E (Some (transaction (demo_info ''v1''))))
                                  (added one_added @ updated one_added))))
           @ '' items with total size ''
           @ str_int (sum_list (map (file_size ?E) (added one_added @ updated one_added))))
        (log_line INFO (''got transaction ID '' @ transaction (demo_info ''v1'')) demo_world)"]
    by (simp add: run_demo uploaded_size_def)
qed


end
